theory Spec2Isabelle
  imports Main "HOL-Library.AList" "HOL-Library.Char_ord" "HOL-Library.List_Lexorder"
begin

section \<open>Helpers of the repository that the package-descriptor code imports\<close>

text \<open>
  Modelled from the spec: \<open>iterutils.uniques\<close> (imported by
  \<open>builtins/pkg_config.py\<close> and \<open>tools/msvc.py\<close>, defined outside the files at hand).
  The spec describes it as deduplication that preserves first-seen order.
\<close>

fun uniques :: "'a list \<Rightarrow> 'a list" where
  "uniques [] = []"
| "uniques (x # xs) = x # uniques (filter (\<lambda>y. y \<noteq> x) xs)"

text \<open>Python errors as values; each carries the message the source formats.\<close>

datatype error = ValueError string | TypeError string | KeyError string | NameError string

definition quoted :: "string \<Rightarrow> string" where
  \<comment> \<open>\<open>"'{}'".format(s)\<close>\<close>
  "quoted s = [CHR 0x27] @ s @ [CHR 0x27]"

section \<open>Version constraints\<close>

text \<open>
  \<open>Specifier\<close> and \<open>SpecifierSet\<close> come from the \<open>packaging\<close> library through
  \<open>..versioning\<close>. Modelled from the spec: a constraint is a set of
  (operator, version) comparisons, semantically a conjunction; \<open>&\<close> combines the
  comparisons of both operands, equal comparisons counted once.
\<close>

record Specifier =
  operator :: string
  spec_version :: string

type_synonym SpecifierSet = "Specifier set"

definition SpecifierSet_and :: "SpecifierSet \<Rightarrow> SpecifierSet \<Rightarrow> SpecifierSet" where
  "SpecifierSet_and a b = a \<union> b"

text \<open>
  The two functions of \<open>..versioning\<close> and \<open>packaging\<close> that the code calls on a
  constraint are parameters of the model: \<open>simplify_specifiers\<close>, which returns the
  simplified comparisons in order, and \<open>str\<close> of a constraint, used in messages.
\<close>

record versioning =
  simplify_specifiers :: "SpecifierSet \<Rightarrow> Specifier list"
  str_SpecifierSet :: "SpecifierSet \<Rightarrow> string"

section \<open>Requirement and SimpleRequirement\<close>

record Requirement =
  req_name :: string
  req_version :: SpecifierSet

record SimpleRequirement =
  sreq_name :: string
  sreq_version :: "Specifier option"

text \<open>A string marked as already escaped for the shell (\<open>safe_str.shell_literal\<close>).\<close>

datatype safe_string = shell_literal string | literal string

definition merge :: "Requirement \<Rightarrow> Requirement \<Rightarrow> Requirement" where
  \<comment> \<open>\<open>self.version = self.version & req.version\<close>; returns the updated \<open>self\<close>\<close>
  "merge self req = self\<lparr>req_version := SpecifierSet_and (req_version self) (req_version req)\<rparr>"

definition Requirement_split ::
    "versioning \<Rightarrow> Requirement \<Rightarrow> bool \<Rightarrow> error + SimpleRequirement list" where
  "Requirement_split vs self single =
     (let specs = simplify_specifiers vs (req_version self) in
      if length specs = 0 then
        Inr [\<lparr>sreq_name = req_name self, sreq_version = None\<rparr>]
      else if single \<and> length specs > 1 then
        Inl (ValueError (''multiple specifiers ('' @ str_SpecifierSet vs (req_version self)
               @ '') used in pkg-config requirement for '' @ quoted (req_name self)))
      else
        Inr (map (\<lambda>i. \<lparr>sreq_name = req_name self, sreq_version = Some i\<rparr>) specs))"

definition safe_str :: "SimpleRequirement \<Rightarrow> safe_string" where
  \<comment> \<open>\<open>SimpleRequirement._safe_str\<close>\<close>
  "safe_str self =
     (case sreq_version self of
        None \<Rightarrow> shell_literal (sreq_name self)
      | Some v \<Rightarrow>
          (let op = operator v;
               op = (if op = ''=='' then ''='' else op)
           in shell_literal (sreq_name self @ '' '' @ op @ '' '' @ spec_version v)))"

section \<open>RequirementSet\<close>

text \<open>
  \<open>self._reqs\<close> is a dictionary from names to requirements; the association list keeps
  its insertion order, which is the order of iteration.
\<close>

type_synonym RequirementSet = "(string \<times> Requirement) list"

definition add :: "Requirement \<Rightarrow> RequirementSet \<Rightarrow> RequirementSet" where
  "add item self =
     (case map_of self (req_name item) of
        None \<Rightarrow> self @ [(req_name item, item)]
      | Some r \<Rightarrow> AList.update (req_name item) (merge r item) self)"

definition remove :: "Requirement \<Rightarrow> RequirementSet \<Rightarrow> error + RequirementSet" where
  \<comment> \<open>\<open>del self._reqs[item.name]\<close> raises KeyError for a missing key\<close>
  "remove item self =
     (case map_of self (req_name item) of
        None \<Rightarrow> Inl (KeyError (req_name item))
      | Some r \<Rightarrow> Inr (AList.delete (req_name item) self))"

definition iter :: "RequirementSet \<Rightarrow> Requirement list" where
  \<comment> \<open>\<open>__iter__\<close>: \<open>itervalues(self._reqs)\<close>\<close>
  "iter self = map snd self"

definition update :: "RequirementSet \<Rightarrow> Requirement list \<Rightarrow> RequirementSet" where
  \<comment> \<open>\<open>for i in other: self.add(i)\<close>\<close>
  "update self other = foldl (\<lambda>s i. add i s) self other"

definition RequirementSet_init :: "Requirement list \<Rightarrow> RequirementSet" where
  "RequirementSet_init iterable = update [] iterable"

text \<open>
  \<open>merge_into\<close> changes both sets. The loop runs over a copy of \<open>other\<close>'s items and
  returns both sets as they stand when it ends or when \<open>remove\<close> raises.
\<close>

fun merge_into_loop ::
    "Requirement list \<Rightarrow> RequirementSet \<Rightarrow> RequirementSet
      \<Rightarrow> error option \<times> RequirementSet \<times> RequirementSet" where
  "merge_into_loop [] self other = (None, self, other)"
| "merge_into_loop (i # items) self other =
     (case map_of self (req_name i) of
        None \<Rightarrow> merge_into_loop items self other
      | Some r \<Rightarrow>
          (let self' = AList.update (req_name i) (merge r i) self in
           case remove i other of
             Inl e \<Rightarrow> (Some e, self', other)
           | Inr other' \<Rightarrow> merge_into_loop items self' other'))"

definition merge_into ::
    "RequirementSet \<Rightarrow> RequirementSet \<Rightarrow> error option \<times> RequirementSet \<times> RequirementSet" where
  "merge_into self other = merge_into_loop (iter other) self other"

fun split_each :: "versioning \<Rightarrow> bool \<Rightarrow> Requirement list \<Rightarrow> error + SimpleRequirement list" where
  \<comment> \<open>\<open>sum((i.split(single) for i in self), [])\<close>: the first failing split raises\<close>
  "split_each vs single [] = Inr []"
| "split_each vs single (i # rest) =
     (case Requirement_split vs i single of
        Inl e \<Rightarrow> Inl e
      | Inr xs \<Rightarrow>
          (case split_each vs single rest of
             Inl e \<Rightarrow> Inl e
           | Inr ys \<Rightarrow> Inr (xs @ ys)))"

definition RequirementSet_split ::
    "versioning \<Rightarrow> RequirementSet \<Rightarrow> bool \<Rightarrow> error + SimpleRequirement list" where
  \<comment> \<open>\<open>sorted(..., key=lambda x: x.name)\<close>: a stable sort by name\<close>
  "RequirementSet_split vs self single =
     (case split_each vs single (iter self) of
        Inl e \<Rightarrow> Inl e
      | Inr xs \<Rightarrow> Inr (sort_key sreq_name xs))"

text \<open>
  A dictionary has one entry per key, and every entry of \<open>_reqs\<close> was stored under the
  name of its requirement (\<open>add\<close> is the only writer and \<open>merge\<close> keeps the name).
\<close>

definition wf_reqs :: "RequirementSet \<Rightarrow> bool" where
  "wf_reqs rs = (distinct (map fst rs) \<and> list_all (\<lambda>(k, r). req_name r = k) rs)"

section \<open>Package references and their filtering\<close>

text \<open>
  Libraries, header directories and flag tokens are handles of the build graph, owned
  elsewhere; the model names them by strings and compares them by name.
\<close>

type_synonym entity = string

text \<open>
  Modelled from the spec: a system package handle (\<open>CommonPackage\<close> of
  \<open>..file_types\<close>) exposes a mapping from field names to option values,
  \<open>all_options\<close>, whose values are lists of entries or something else.
\<close>

datatype option_value = Iterable "entity list" | Scalar string

record CommonPackage =
  pkg_name :: string
  all_options :: "(string \<times> option_value) list"

text \<open>
  The shapes \<open>_filter_packages\<close> tells apart with \<open>isinstance\<close>: a string, a tuple or
  list (name and optional version specifier, already parsed), a pkg-config package
  (name and specifier), a system package, and any other object (with the text of its type).
\<close>

datatype package =
    Str string
  | Tuple string "SpecifierSet option"
  | PkgConfigPackage string SpecifierSet
  | Common CommonPackage
  | Other string

definition Requirement_init :: "string \<Rightarrow> SpecifierSet option \<Rightarrow> Requirement" where
  \<comment> \<open>\<open>objectify(version or '', SpecifierSet)\<close>: no version is the empty constraint\<close>
  "Requirement_init n v =
     \<lparr>req_name = n, req_version = (case v of None \<Rightarrow> {} | Some s \<Rightarrow> s)\<rparr>"

fun filter_packages_loop ::
    "package list \<Rightarrow> RequirementSet \<Rightarrow> CommonPackage list
      \<Rightarrow> error + (RequirementSet \<times> CommonPackage list)" where
  "filter_packages_loop [] pkg_config system = Inr (pkg_config, uniques system)"
| "filter_packages_loop (Str n # rest) pkg_config system =
     filter_packages_loop rest (add (Requirement_init n None) pkg_config) system"
| "filter_packages_loop (Tuple n v # rest) pkg_config system =
     filter_packages_loop rest (add (Requirement_init n v) pkg_config) system"
| "filter_packages_loop (PkgConfigPackage n v # rest) pkg_config system =
     filter_packages_loop rest (add (Requirement_init n (Some v)) pkg_config) system"
| "filter_packages_loop (Common p # rest) pkg_config system =
     filter_packages_loop rest pkg_config (system @ [p])"
| "filter_packages_loop (Other t # rest) pkg_config system =
     Inl (TypeError (''unsupported package type: '' @ t))"

definition filter_packages ::
    "package list \<Rightarrow> error + (RequirementSet \<times> CommonPackage list)" where
  "filter_packages packages = filter_packages_loop packages [] []"

section \<open>The build graph\<close>

record forward_args =
  fwd_options :: "string list"
  fwd_libs :: "entity list"

text \<open>
  What a library handle exposes: \<open>forward_args\<close> when it has the attribute, and
  \<open>package_deps\<close>.
\<close>

record build_graph =
  forward_args_of :: "entity \<Rightarrow> forward_args option"
  package_deps :: "entity \<Rightarrow> package list"

section \<open>PkgConfigInfo\<close>

text \<open>The fields as the property setters store them.\<close>

record PkgConfigInfo =
  auto_fill :: bool
  name :: "string option"
  desc_name :: "string option"
  desc :: "string option"
  url :: "string option"
  version :: "string option"
  lang :: string
  requires :: "(RequirementSet \<times> CommonPackage list) option"
  requires_private :: "(RequirementSet \<times> CommonPackage list) option"
  conflicts :: "RequirementSet option"
  includes' :: "entity list option"
  libs :: "entity list option"
  libs_private :: "entity list option"
  options :: "string list"
  link_options :: "string list"
  link_options_private :: "string list"

definition set_entities :: "entity list option \<Rightarrow> entity list option" where
  \<comment> \<open>the setters of \<open>includes\<close> (a keyword of Isabelle, hence the field \<open>includes'\<close>),
      \<open>libs\<close> and \<open>libs_private\<close>; the builtins \<open>header_directory\<close> and \<open>library\<close> resolve
      a handle to itself\<close>
  "set_entities value = (case value of None \<Rightarrow> None | Some xs \<Rightarrow> Some (uniques xs))"

definition set_packages ::
    "package list option \<Rightarrow> error + (RequirementSet \<times> CommonPackage list) option" where
  \<comment> \<open>the setters of \<open>requires\<close> and \<open>requires_private\<close>\<close>
  "set_packages value =
     (case value of
        None \<Rightarrow> Inr None
      | Some xs \<Rightarrow> (case filter_packages xs of Inl e \<Rightarrow> Inl e | Inr r \<Rightarrow> Inr (Some r)))"

definition set_conflicts :: "package list option \<Rightarrow> error + RequirementSet option" where
  "set_conflicts value =
     (case value of
        None \<Rightarrow> Inr None
      | Some xs \<Rightarrow> (case filter_packages xs of Inl e \<Rightarrow> Inl e | Inr r \<Rightarrow> Inr (Some (fst r))))"

text \<open>Python's \<open>or\<close> on an optional string or list: \<open>None\<close> and the empty value are false.\<close>

definition or_else :: "'a list option \<Rightarrow> 'a list option \<Rightarrow> 'a list option" where
  "or_else a b = (case a of Some (x # xs) \<Rightarrow> a | _ \<Rightarrow> b)"

definition or_empty :: "'a list option \<Rightarrow> 'a list" where
  \<comment> \<open>\<open>value or []\<close>\<close>
  "or_empty a = (case a of Some xs \<Rightarrow> xs | None \<Rightarrow> [])"

definition str_opt :: "string option \<Rightarrow> string" where
  \<comment> \<open>\<open>'{}'.format(value)\<close>\<close>
  "str_opt a = (case a of Some s \<Rightarrow> s | None \<Rightarrow> ''None'')"

text \<open>The dictionary \<open>_process_inputs\<close> returns.\<close>

record resolved =
  r_name :: "string option"
  r_desc_name :: "string option"
  r_url :: "string option"
  r_version :: "string option"
  r_desc :: string
  r_requires :: "SimpleRequirement list"
  r_requires_private :: "SimpleRequirement list"
  r_conflicts :: "SimpleRequirement list"
  r_includes :: "entity list"
  r_libs :: "entity list"
  r_libs_private :: "entity list"
  r_extra_fields :: "(string \<times> entity list) list"
  r_cflags :: "string list"
  r_ldflags :: "string list"
  r_ldflags_private :: "string list"

definition forwarded_options :: "build_graph \<Rightarrow> entity \<Rightarrow> string list" where
  \<comment> \<open>\<open>i.forward_args['options'] if hasattr(i, 'forward_args') else []\<close>\<close>
  "forwarded_options g i = (case forward_args_of g i of Some fa \<Rightarrow> fwd_options fa | None \<Rightarrow> [])"

definition forwarded_libs :: "build_graph \<Rightarrow> entity \<Rightarrow> entity list" where
  \<comment> \<open>\<open>i.forward_args['libs'] if hasattr(i, 'forward_args') else []\<close>\<close>
  "forwarded_libs g i = (case forward_args_of g i of Some fa \<Rightarrow> fwd_libs fa | None \<Rightarrow> [])"

definition fwd_ldflags :: "build_graph \<Rightarrow> entity list \<Rightarrow> entity list \<Rightarrow> string list" where
  "fwd_ldflags g libs0 libs_private0 = concat (map (forwarded_options g) (libs0 @ libs_private0))"

definition resolve_libs_private :: "build_graph \<Rightarrow> entity list \<Rightarrow> entity list \<Rightarrow> entity list" where
  \<comment> \<open>lines 264 to 269: the filter \<open>if i not in libs\<close> is on the library iterated over\<close>
  "resolve_libs_private g libs0 libs_private0 =
     uniques (concat (map (forwarded_libs g)
                (filter (\<lambda>i. i \<notin> set libs0) (libs0 @ libs_private0)))
              @ libs_private0)"

text \<open>
  \<open>process_packages\<close> is written to extend lists of the result dictionary in place. The
  four entries it can reach are kept in a record of their own; the keys
  \<open>includes_private\<close> and \<open>extra_fields_private\<close> are never stored in the dictionary, so
  reading them raises KeyError.

  The test of line 294, \<open>isiterable(v)\<close>, uses a name that \<open>pkg_config.py\<close> never binds:
  line 11 imports only \<open>iterate\<close> and \<open>uniques\<close> from \<open>..iterutils\<close>. Evaluating the
  test raises NameError, for whatever value, so the loop stops at the first option of
  the first system package that has one, before any list is extended.
\<close>

record fields =
  f_includes :: "entity list"
  f_libs :: "entity list"
  f_libs_private :: "entity list"
  f_extra_fields :: "(string \<times> entity list) list"

definition extend_extra :: "string \<Rightarrow> entity list \<Rightarrow> (string \<times> entity list) list
    \<Rightarrow> (string \<times> entity list) list" where
  \<comment> \<open>\<open>defaultdict(list)[k].extend(v)\<close>\<close>
  "extend_extra k v d =
     (case map_of d k of None \<Rightarrow> d @ [(k, v)] | Some old \<Rightarrow> AList.update k (old @ v) d)"

definition extend_field :: "bool \<Rightarrow> string \<Rightarrow> entity list \<Rightarrow> fields \<Rightarrow> error + fields" where
  \<comment> \<open>\<open>(result if k in core else result[extra])[k].extend(v)\<close>\<close>
  "extend_field private k v f =
     (if \<not> private then
        (if k = ''includes'' then Inr (f\<lparr>f_includes := f_includes f @ v\<rparr>)
         else if k = ''libs'' then Inr (f\<lparr>f_libs := f_libs f @ v\<rparr>)
         else Inr (f\<lparr>f_extra_fields := extend_extra k v (f_extra_fields f)\<rparr>))
      else
        (if k = ''includes_private'' then Inl (KeyError ''includes_private'')
         else if k = ''libs_private'' then Inr (f\<lparr>f_libs_private := f_libs_private f @ v\<rparr>)
         else Inl (KeyError ''extra_fields_private'')))"

definition isiterable :: "option_value \<Rightarrow> error + bool" where
  \<comment> \<open>the unbound name of line 294\<close>
  "isiterable v = Inl (NameError (''name '' @ quoted ''isiterable'' @ '' is not defined''))"

definition elements :: "option_value \<Rightarrow> entity list" where
  \<comment> \<open>the entries that \<open>extend(v)\<close> would append\<close>
  "elements v = (case v of Iterable xs \<Rightarrow> xs | Scalar s \<Rightarrow> [])"

fun process_options ::
    "bool \<Rightarrow> (string \<times> option_value) list \<Rightarrow> fields \<Rightarrow> error option \<times> fields" where
  \<comment> \<open>\<open>for k, v in iteritems(i.all_options): if isiterable(v): ...\<close>\<close>
  "process_options private [] f = (None, f)"
| "process_options private ((k, v) # rest) f =
     (case isiterable v of
        Inl e \<Rightarrow> (Some e, f)
      | Inr b \<Rightarrow>
          (if b then
             (case extend_field private k (elements v) f of
                Inl e \<Rightarrow> (Some e, f)
              | Inr f' \<Rightarrow> process_options private rest f')
           else process_options private rest f))"

definition process_packages :: "CommonPackage list \<Rightarrow> bool \<Rightarrow> fields \<Rightarrow> error option \<times> fields" where
  "process_packages pkgs private f = process_options private (concat (map all_options pkgs)) f"

text \<open>
  \<open>_process_inputs\<close> returns the dictionary or raises, and leaves the descriptor changed:
  the requirement sets stored on it are updated in place, and a non-empty \<open>includes\<close> or
  \<open>libs\<close> list is the very list that \<open>process_packages\<close> is handed. The model returns
  the descriptor as it stands at the return or the raise.
\<close>

definition store_sets ::
    "PkgConfigInfo \<Rightarrow> RequirementSet \<Rightarrow> RequirementSet \<Rightarrow> PkgConfigInfo" where
  \<comment> \<open>the in-place effect of \<open>update\<close> and \<open>merge_into\<close> on the sets the descriptor holds\<close>
  "store_sets self req rp =
     self\<lparr>requires := (case requires self of None \<Rightarrow> None | Some (s, e) \<Rightarrow> Some (req, e)),
          requires_private :=
            (case requires_private self of None \<Rightarrow> None | Some (s, e) \<Rightarrow> Some (rp, e))\<rparr>"

definition store_lists :: "PkgConfigInfo \<Rightarrow> fields \<Rightarrow> PkgConfigInfo" where
  \<comment> \<open>the in-place effect of \<open>extend\<close> on a list shared with the descriptor\<close>
  "store_lists self f =
     self\<lparr>includes' := (case includes' self of Some (x # xs) \<Rightarrow> Some (f_includes f) | v \<Rightarrow> v),
          libs := (case libs self of Some (x # xs) \<Rightarrow> Some (f_libs f) | v \<Rightarrow> v)\<rparr>"

definition process_inputs ::
    "versioning \<Rightarrow> build_graph \<Rightarrow> PkgConfigInfo \<Rightarrow> (error + resolved) \<times> PkgConfigInfo" where
  "process_inputs vs g self =
     (let res_desc_name = or_else (desc_name self) (name self);
          res_desc = (case desc self of Some (c # cs) \<Rightarrow> c # cs
                      | _ \<Rightarrow> str_opt res_desc_name @ '' library'');
          includes0 = or_empty (includes' self);
          libs0 = or_empty (libs self);
          libs_private0 = or_empty (libs_private self);
          (requires0, extra) = (case requires self of Some p \<Rightarrow> p | None \<Rightarrow> ([], []));
          (requires_private0, extra_private) =
             (case requires_private self of Some p \<Rightarrow> p | None \<Rightarrow> ([], []));
          conflicts0 = (case conflicts self of Some c \<Rightarrow> c | None \<Rightarrow> []);
          fwd = fwd_ldflags g libs0 libs_private0;
          libs_private1 = resolve_libs_private g libs0 libs_private0
      in
      case filter_packages (concat (map (package_deps g) (libs0 @ libs_private1))) of
        Inl e \<Rightarrow> (Inl e, self)
      | Inr (auto_requires, auto_extra) \<Rightarrow>
          (let requires_private1 = update requires_private0 (iter auto_requires) in
           case merge_into requires0 requires_private1 of
             (Some e, requires1, requires_private2) \<Rightarrow>
               (Inl e, store_sets self requires1 requires_private2)
           | (None, requires1, requires_private2) \<Rightarrow>
               (let self1 = store_sets self requires1 requires_private2 in
                case RequirementSet_split vs requires1 True of
                  Inl e \<Rightarrow> (Inl e, self1)
                | Inr res_requires \<Rightarrow>
                    (case RequirementSet_split vs requires_private2 True of
                       Inl e \<Rightarrow> (Inl e, self1)
                     | Inr res_requires_private \<Rightarrow>
                         (case RequirementSet_split vs conflicts0 False of
                            Inl e \<Rightarrow> (Inl e, self1)
                          | Inr res_conflicts \<Rightarrow>
                              (let f0 = \<lparr>f_includes = includes0, f_libs = libs0,
                                         f_libs_private = libs_private1, f_extra_fields = []\<rparr>
                               in
                               case process_packages extra False f0 of
                                 (Some e, f1) \<Rightarrow> (Inl e, store_lists self1 f1)
                               | (None, f1) \<Rightarrow>
                                   (case process_packages (extra_private @ auto_extra) True f1 of
                                      (Some e, f2) \<Rightarrow> (Inl e, store_lists self1 f2)
                                    | (None, f2) \<Rightarrow>
                                        (Inr \<lparr>r_name = name self,
                                              r_desc_name = res_desc_name,
                                              r_url = url self,
                                              r_version = version self,
                                              r_desc = res_desc,
                                              r_requires = res_requires,
                                              r_requires_private = res_requires_private,
                                              r_conflicts = res_conflicts,
                                              r_includes = f_includes f2,
                                              r_libs = f_libs f2,
                                              r_libs_private = f_libs_private f2,
                                              r_extra_fields = f_extra_fields f2,
                                              r_cflags = options self,
                                              r_ldflags = link_options self,
                                              r_ldflags_private =
                                                fwd @ link_options_private self\<rparr>,
                                         store_lists self1 f2))))))))"

section \<open>Writing the descriptor file\<close>

text \<open>
  Modelled from the spec: the \<open>Writer\<close> of \<open>..shell.syntax\<close> and the collaborators of
  \<open>write\<close>. \<open>Writer.write\<close> escapes a plain string for the syntax asked for and writes
  a literal as it is; \<open>write_each\<close> writes the items with the delimiter between them.
  The environment gives the install roots in order (all but the one for executables),
  the compiler flags and the linker flags and libraries for a language and a package of
  include directories and libraries, and the escaping of plain strings.
\<close>

datatype Syntax = variable | shell

datatype thing = Plain string | Safe safe_string

record environment =
  install_dirs :: "(string \<times> string) list"
  cflags_of :: "string \<Rightarrow> entity list \<Rightarrow> entity list \<Rightarrow> string list"
  ldflags_of :: "string \<Rightarrow> entity list \<Rightarrow> entity list \<Rightarrow> string list"
  escape_str :: "Syntax \<Rightarrow> string \<Rightarrow> string"

definition Writer_write :: "environment \<Rightarrow> thing \<Rightarrow> Syntax \<Rightarrow> string" where
  "Writer_write env t syntax =
     (case t of
        Plain s \<Rightarrow> escape_str env syntax s
      | Safe (shell_literal s) \<Rightarrow> s
      | Safe (literal s) \<Rightarrow> s)"

fun write_each :: "environment \<Rightarrow> thing list \<Rightarrow> Syntax \<Rightarrow> string \<Rightarrow> string" where
  "write_each env [] syntax delim = []"
| "write_each env [t] syntax delim = Writer_write env t syntax"
| "write_each env (t # u # ts) syntax delim =
     Writer_write env t syntax @ delim @ write_each env (u # ts) syntax delim"

definition write_variable :: "environment \<Rightarrow> string \<Rightarrow> string \<Rightarrow> string" where
  "write_variable env n v =
     Writer_write env (Plain n) variable @ ''='' @ Writer_write env (Plain v) variable
     @ [CHR 0x0A]"

definition write_field ::
    "environment \<Rightarrow> string \<Rightarrow> thing list \<Rightarrow> Syntax \<Rightarrow> string \<Rightarrow> string" where
  \<comment> \<open>\<open>if value:\<close> skips an empty list; \<open>iterate(value)\<close> is the list of items\<close>
  "write_field env n things syntax delim =
     (if things = [] then []
      else Writer_write env (Plain n) variable @ '': '' @ write_each env things syntax delim
           @ [CHR 0x0A])"

definition text_value :: "string option \<Rightarrow> thing list" where
  \<comment> \<open>a string field: \<open>None\<close> and the empty string are false, otherwise one item\<close>
  "text_value v = (case v of Some (c # cs) \<Rightarrow> [Plain (c # cs)] | _ \<Rightarrow> [])"

definition requirement_things :: "SimpleRequirement list \<Rightarrow> thing list" where
  \<comment> \<open>\<open>Writer.write\<close> turns an object into a string with its \<open>_safe_str\<close>\<close>
  "requirement_things reqs = map (\<lambda>r. Safe (safe_str r)) reqs"

definition write_data :: "environment \<Rightarrow> string \<Rightarrow> resolved \<Rightarrow> string" where
  \<comment> \<open>the body of \<open>write\<close> after \<open>_process_inputs\<close> has returned\<close>
  "write_data env language data =
     (let cflags = cflags_of env language (r_includes data) (r_libs data);
          ldflags = ldflags_of env language (r_includes data) (r_libs data);
          ldflags_private = ldflags_of env language [] (r_libs_private data)
      in
      concat (map (\<lambda>(n, v). write_variable env n v) (install_dirs env))
      @ [CHR 0x0A]
      @ write_field env ''Name'' (text_value (r_desc_name data)) variable '' ''
      @ write_field env ''Description'' (text_value (Some (r_desc data))) variable '' ''
      @ write_field env ''URL'' (text_value (r_url data)) variable '' ''
      @ write_field env ''Version'' (text_value (r_version data)) variable '' ''
      @ write_field env ''Requires'' (requirement_things (r_requires data)) shell '', ''
      @ write_field env ''Requires.private''
          (requirement_things (r_requires_private data)) shell '', ''
      @ write_field env ''Conflicts'' (requirement_things (r_conflicts data)) shell '', ''
      @ write_field env ''Cflags'' (map Plain (cflags @ r_cflags data)) shell '' ''
      @ write_field env ''Libs'' (map Plain (ldflags @ r_ldflags data)) shell '' ''
      @ write_field env ''Libs.private''
          (map Plain (ldflags_private @ r_ldflags_private data)) shell '' '')"

definition PkgConfigInfo_write ::
    "environment \<Rightarrow> versioning \<Rightarrow> build_graph \<Rightarrow> PkgConfigInfo
      \<Rightarrow> (error + string) \<times> PkgConfigInfo" where
  "PkgConfigInfo_write env vs g self =
     (case process_inputs vs g self of
        (Inl e, self') \<Rightarrow> (Inl e, self')
      | (Inr data, self') \<Rightarrow> (Inr (write_data env (lang self) data), self'))"

section \<open>The finalization pass\<close>

datatype installed =
    HeaderFile entity
  | HeaderDirectory entity
  | Library entity "entity option"
  | OtherFile entity

record build_inputs =
  project_name :: string
  project_version :: "string option"
  install :: "installed list"
  pkg_config :: "PkgConfigInfo list"

fun installed_headers :: "installed list \<Rightarrow> entity list" where
  "installed_headers [] = []"
| "installed_headers (HeaderFile h # rest) = h # installed_headers rest"
| "installed_headers (HeaderDirectory h # rest) = h # installed_headers rest"
| "installed_headers (i # rest) = installed_headers rest"

fun installed_libs :: "installed list \<Rightarrow> entity list" where
  \<comment> \<open>\<open>getattr(i, 'parent', i)\<close> for every installed library\<close>
  "installed_libs [] = []"
| "installed_libs (Library l parent # rest) =
     (case parent of Some p \<Rightarrow> p | None \<Rightarrow> l) # installed_libs rest"
| "installed_libs (i # rest) = installed_libs rest"

definition fill_defaults :: "build_inputs \<Rightarrow> PkgConfigInfo \<Rightarrow> PkgConfigInfo" where
  "fill_defaults build info =
     (if \<not> auto_fill info then info
      else info\<lparr>
        name := (case name info of None \<Rightarrow> Some (project_name build) | v \<Rightarrow> v),
        version := (case version info of
                      None \<Rightarrow> or_else (project_version build) (Some ''0.0'') | v \<Rightarrow> v),
        includes' := (case includes' info of
                        None \<Rightarrow> set_entities (Some (installed_headers (install build)))
                      | v \<Rightarrow> v),
        libs := (case libs info of
                   None \<Rightarrow> set_entities (Some (uniques (installed_libs (install build))))
                 | v \<Rightarrow> v)\<rparr>)"

definition duplicate_name :: "string option list \<Rightarrow> string option option" where
  \<comment> \<open>the first name the \<open>Counter\<close> has counted more than once\<close>
  "duplicate_name names = List.find (\<lambda>n. count_list names n > 1) (uniques names)"

definition output_path :: "PkgConfigInfo \<Rightarrow> error + string" where
  \<comment> \<open>\<open>self.directory.append(self.name + '.pc')\<close>\<close>
  "output_path info =
     (case name info of
        None \<Rightarrow> Inl (TypeError ''unsupported operand type(s) for +'')
      | Some n \<Rightarrow> Inr (''pkgconfig/'' @ n @ ''.pc''))"

text \<open>
  Modelled from the spec: \<open>generated_file\<close> of \<open>.file_types\<close> registers one output
  file; a file whose writing raised is not left in place. The files written so far are
  part of the result, next to the error that stopped the pass, if any, and the
  descriptors as the pass left them.
\<close>

fun write_all ::
    "environment \<Rightarrow> versioning \<Rightarrow> build_graph \<Rightarrow> PkgConfigInfo list
      \<Rightarrow> error option \<times> (string \<times> string) list \<times> PkgConfigInfo list" where
  "write_all env vs g [] = (None, [], [])"
| "write_all env vs g (info # rest) =
     (case output_path info of
        Inl e \<Rightarrow> (Some e, [], info # rest)
      | Inr path \<Rightarrow>
          (case PkgConfigInfo_write env vs g info of
             (Inl e, info') \<Rightarrow> (Some e, [], info' # rest)
           | (Inr content, info') \<Rightarrow>
               (case write_all env vs g rest of
                  (err, files, rest') \<Rightarrow> (err, (path, content) # files, info' # rest'))))"

definition finalize_pkg_config ::
    "environment \<Rightarrow> versioning \<Rightarrow> build_graph \<Rightarrow> build_inputs
      \<Rightarrow> error option \<times> (string \<times> string) list \<times> PkgConfigInfo list" where
  "finalize_pkg_config env vs g build =
     (let infos = map (fill_defaults build) (pkg_config build) in
      case duplicate_name (map name infos) of
        Some n \<Rightarrow> (Some (ValueError (''duplicate pkg-config package '' @ quoted (str_opt n))),
                   [], infos)
      | None \<Rightarrow> write_all env vs g infos)"

section \<open>Notions used in the statements\<close>

text \<open>
  The constraint that the requirements named \<open>k\<close> in a list contribute together: every
  comparison of every one of them.
\<close>

definition vunion :: "Requirement list \<Rightarrow> string \<Rightarrow> SpecifierSet" where
  "vunion items k = \<Union> (req_version ` {x \<in> set items. req_name x = k})"

text \<open>
  What \<open>merge_into\<close> leaves in an entry of \<open>self\<close>: the entry merged with the item of the
  same name among \<open>items\<close>, if there is one.
\<close>

definition merged_entry :: "Requirement list \<Rightarrow> string \<times> Requirement \<Rightarrow> string \<times> Requirement" where
  "merged_entry items = (\<lambda>(k, r). (k, case map_of (map (\<lambda>i. (req_name i, i)) items) k of
                                      None \<Rightarrow> r | Some i \<Rightarrow> merge r i))"

text \<open>
  The partition the spec describes for \<open>filterPackages\<close>, written after its words: the
  requirements named by the pkg-config style entries, the system package handles, and
  the type of the first entry of any other shape.
\<close>

fun pkg_config_reqs :: "package list \<Rightarrow> Requirement list" where
  "pkg_config_reqs [] = []"
| "pkg_config_reqs (Str n # rest) = Requirement_init n None # pkg_config_reqs rest"
| "pkg_config_reqs (Tuple n v # rest) = Requirement_init n v # pkg_config_reqs rest"
| "pkg_config_reqs (PkgConfigPackage n v # rest) = Requirement_init n (Some v) # pkg_config_reqs rest"
| "pkg_config_reqs (p # rest) = pkg_config_reqs rest"

fun system_packages :: "package list \<Rightarrow> CommonPackage list" where
  "system_packages [] = []"
| "system_packages (Common p # rest) = p # system_packages rest"
| "system_packages (p # rest) = system_packages rest"

fun first_unsupported :: "package list \<Rightarrow> string option" where
  "first_unsupported [] = None"
| "first_unsupported (Other t # rest) = Some t"
| "first_unsupported (p # rest) = first_unsupported rest"

text \<open>
  Values for the examples: comparisons and requirements written shortly, and an instance
  of the versioning functions that lists the comparisons of a constraint in a fixed
  order, among those the examples use, and prints them separated by commas.
\<close>

abbreviation spec :: "string \<Rightarrow> string \<Rightarrow> Specifier" where
  "spec op v \<equiv> \<lparr>operator = op, spec_version = v\<rparr>"

abbreviation req :: "string \<Rightarrow> SpecifierSet \<Rightarrow> Requirement" where
  "req n v \<equiv> \<lparr>req_name = n, req_version = v\<rparr>"

abbreviation known_comparisons :: "Specifier list" where
  "known_comparisons \<equiv> [spec ''>='' ''1.0'', spec ''<'' ''2.0'', spec ''!='' ''1.5'',
                          spec ''>='' ''1.2'', spec ''>='' ''3.0'', spec ''=='' ''1.0'']"

abbreviation example_versioning :: versioning where
  "example_versioning \<equiv>
     \<lparr>simplify_specifiers = (\<lambda>v. filter (\<lambda>c. c \<in> v) known_comparisons),
      str_SpecifierSet = (\<lambda>v. tl (concat (map (\<lambda>c. '','' @ operator c @ spec_version c)
                                     (filter (\<lambda>c. c \<in> v) known_comparisons))))\<rparr>"

text \<open>
  The inputs of \<open>_process_inputs\<close> as it reads them from the descriptor: the declared
  requirement set and system packages of a \<open>requires\<close> field (empty when the field is
  unset), the package dependencies of all libraries, and the lists \<open>process_packages\<close>
  starts from.
\<close>

definition declared_set :: "(RequirementSet \<times> CommonPackage list) option \<Rightarrow> RequirementSet" where
  "declared_set v = (case v of Some p \<Rightarrow> fst p | None \<Rightarrow> [])"

definition declared_system :: "(RequirementSet \<times> CommonPackage list) option \<Rightarrow> CommonPackage list" where
  "declared_system v = (case v of Some p \<Rightarrow> snd p | None \<Rightarrow> [])"

definition library_deps :: "build_graph \<Rightarrow> PkgConfigInfo \<Rightarrow> package list" where
  "library_deps g d =
     concat (map (package_deps g)
       (or_empty (libs d) @ resolve_libs_private g (or_empty (libs d)) (or_empty (libs_private d))))"

definition initial_fields :: "build_graph \<Rightarrow> PkgConfigInfo \<Rightarrow> fields" where
  "initial_fields g d =
     \<lparr>f_includes = or_empty (includes' d), f_libs = or_empty (libs d),
      f_libs_private = resolve_libs_private g (or_empty (libs d)) (or_empty (libs_private d)),
      f_extra_fields = []\<rparr>"

text \<open>
  The rendering of requirement entries as the claim about the requirement fields words
  it: the bare name for an unconstrained requirement, otherwise name, operator and
  version separated by single spaces, with \<open>=\<close> in the place of \<open>==\<close>; the entries of a
  field joined by a comma and a space; a field with no entry not written at all.
\<close>

definition render_requirement :: "SimpleRequirement \<Rightarrow> string" where
  "render_requirement r =
     (case sreq_version r of
        None \<Rightarrow> sreq_name r
      | Some c \<Rightarrow> sreq_name r @ '' '' @ (if operator c = ''=='' then ''='' else operator c)
                 @ '' '' @ spec_version c)"

fun join_with :: "string \<Rightarrow> string list \<Rightarrow> string" where
  "join_with d [] = []"
| "join_with d [x] = x"
| "join_with d (x # y # ys) = x @ d @ join_with d (y # ys)"

definition requirement_line :: "environment \<Rightarrow> string \<Rightarrow> SimpleRequirement list \<Rightarrow> string" where
  "requirement_line env field reqs =
     (if reqs = [] then []
      else escape_str env variable field @ '': ''
           @ join_with '', '' (map render_requirement reqs) @ [CHR 0x0A])"

text \<open>
  More values for the examples: a descriptor with nothing set, a graph in which library
  \<open>A\<close> forwards library \<open>B\<close> and the link option \<open>-DFOO\<close>, a graph in which library
  \<open>L\<close> depends on two pkg-config packages, an environment, and a build with two
  descriptors named \<open>foo\<close>.
\<close>

abbreviation empty_info :: PkgConfigInfo where
  "empty_info \<equiv>
     \<lparr>auto_fill = True, name = None, desc_name = None, desc = None, url = None,
      version = None, lang = ''c'', requires = None, requires_private = None,
      conflicts = None, includes' = None, libs = None, libs_private = None,
      options = [], link_options = [], link_options_private = []\<rparr>"

abbreviation forwarding_graph :: build_graph where
  "forwarding_graph \<equiv>
     \<lparr>forward_args_of =
        (\<lambda>i. if i = ''A'' then Some \<lparr>fwd_options = [''-DFOO''], fwd_libs = [''B'']\<rparr> else None),
      package_deps = (\<lambda>i. [])\<rparr>"

abbreviation deps_graph :: build_graph where
  "deps_graph \<equiv>
     \<lparr>forward_args_of = (\<lambda>i. None),
      package_deps =
        (\<lambda>i. if i = ''L''
             then [PkgConfigPackage ''zlib'' {spec ''>='' ''1.2''}, PkgConfigPackage ''png'' {}]
             else [])\<rparr>"

abbreviation example_environment :: environment where
  "example_environment \<equiv>
     \<lparr>install_dirs = [(''prefix'', ''/usr/local'')],
      cflags_of = (\<lambda>l incs ls. map (\<lambda>i. ''-I'' @ i) incs),
      ldflags_of = (\<lambda>l incs ls. map (\<lambda>i. ''-l'' @ i) ls),
      escape_str = (\<lambda>syntax s. s)\<rparr>"

abbreviation two_foo :: build_inputs where
  "two_foo \<equiv>
     \<lparr>project_name = ''proj'', project_version = None, install = [],
      pkg_config = [empty_info\<lparr>name := Some ''foo''\<rparr>, empty_info\<lparr>name := Some ''foo''\<rparr>]\<rparr>"

text \<open>
  The result of \<open>merge_into\<close> on well-formed sets: \<open>self\<close> with every entry merged with
  the entry of \<open>other\<close> of the same name, and \<open>other\<close> without the names of \<open>self\<close>.
\<close>

definition merged_with :: "RequirementSet \<Rightarrow> RequirementSet \<Rightarrow> RequirementSet" where
  "merged_with other self =
     map (\<lambda>(k, r). (k, case map_of other k of None \<Rightarrow> r | Some i \<Rightarrow> merge r i)) self"

definition without_keys_of :: "RequirementSet \<Rightarrow> RequirementSet \<Rightarrow> RequirementSet" where
  "without_keys_of self other = filter (\<lambda>(k, i). map_of self k = None) other"

text \<open>
  The part of \<open>_process_inputs\<close> that follows \<open>merge_into\<close>, from the first \<open>split\<close> to
  the return, as a function of the merged sets; \<open>process_inputs_alt\<close> below shows that
  \<open>process_inputs\<close> is this function after the first steps.
\<close>

definition resolve_rest ::
    "versioning \<Rightarrow> build_graph \<Rightarrow> PkgConfigInfo \<Rightarrow> CommonPackage list
      \<Rightarrow> RequirementSet \<Rightarrow> RequirementSet \<Rightarrow> (error + resolved) \<times> PkgConfigInfo" where
  "resolve_rest vs g self auto_extra requires1 requires_private2 =
     (let self1 = store_sets self requires1 requires_private2 in
      case RequirementSet_split vs requires1 True of
        Inl e \<Rightarrow> (Inl e, self1)
      | Inr res_requires \<Rightarrow>
          (case RequirementSet_split vs requires_private2 True of
             Inl e \<Rightarrow> (Inl e, self1)
           | Inr res_requires_private \<Rightarrow>
               (case RequirementSet_split vs
                       (case conflicts self of Some c \<Rightarrow> c | None \<Rightarrow> []) False of
                  Inl e \<Rightarrow> (Inl e, self1)
                | Inr res_conflicts \<Rightarrow>
                    (case process_packages (declared_system (requires self)) False
                            (initial_fields g self) of
                       (Some e, f1) \<Rightarrow> (Inl e, store_lists self1 f1)
                     | (None, f1) \<Rightarrow>
                         (case process_packages
                                 (declared_system (requires_private self) @ auto_extra) True f1 of
                            (Some e, f2) \<Rightarrow> (Inl e, store_lists self1 f2)
                          | (None, f2) \<Rightarrow>
                              (Inr \<lparr>r_name = name self,
                                    r_desc_name = or_else (desc_name self) (name self),
                                    r_url = url self,
                                    r_version = version self,
                                    r_desc = (case desc self of Some (c # cs) \<Rightarrow> c # cs
                                              | _ \<Rightarrow> str_opt (or_else (desc_name self) (name self))
                                                     @ '' library''),
                                    r_requires = res_requires,
                                    r_requires_private = res_requires_private,
                                    r_conflicts = res_conflicts,
                                    r_includes = f_includes f2,
                                    r_libs = f_libs f2,
                                    r_libs_private = f_libs_private f2,
                                    r_extra_fields = f_extra_fields f2,
                                    r_cflags = options self,
                                    r_ldflags = link_options self,
                                    r_ldflags_private =
                                      fwd_ldflags g (or_empty (libs self))
                                        (or_empty (libs_private self))
                                      @ link_options_private self\<rparr>,
                               store_lists self1 f2))))))"

text \<open>
  Three descriptors for the examples: one with an include directory and a declared
  system package that has a list of include directories of its own; one that links
  library \<open>L\<close>, requires \<open>zlib\<close> and keeps a set of private requirements; one that
  links \<open>L\<close>, requires \<open>abc < 2.0\<close> and \<open>zlib\<close>, and conflicts with \<open>bar == 1.0\<close> and
  \<open>baz\<close>.
\<close>

abbreviation system_includes_info :: PkgConfigInfo where
  "system_includes_info \<equiv>
     empty_info\<lparr>name := Some ''foo'', includes' := Some [''H''],
       requires := Some ([], [\<lparr>pkg_name = ''sys'',
                                all_options = [(''includes'', Iterable [''D''])]\<rparr>])\<rparr>"

abbreviation zlib_info :: PkgConfigInfo where
  "zlib_info \<equiv>
     empty_info\<lparr>name := Some ''foo'', libs := Some [''L''],
       requires := Some ([(''zlib'', req ''zlib'' {})], []),
       requires_private := Some ([], [])\<rparr>"

abbreviation conflicts_info :: PkgConfigInfo where
  "conflicts_info \<equiv>
     empty_info\<lparr>name := Some ''foo'', libs := Some [''L''],
       requires := Some ([(''zlib'', req ''zlib'' {}),
                          (''abc'', req ''abc'' {spec ''<'' ''2.0''})], []),
       conflicts := Some [(''bar'', req ''bar'' {spec ''=='' ''1.0''}),
                          (''baz'', req ''baz'' {})]\<rparr>"

section \<open>Auxiliary facts\<close>

subsection \<open>Deduplication\<close>

lemma set_uniques: "set (uniques xs) = set xs"
  by (induction xs rule: uniques.induct) auto

lemma distinct_uniques: "distinct (uniques xs)"
  by (induction xs rule: uniques.induct) (auto simp: set_uniques)

subsection \<open>Association lists\<close>

lemma update_as_map:
  "map_of s k = Some r \<Longrightarrow> distinct (map fst s) \<Longrightarrow>
   AList.update k v s = map (\<lambda>(k', r'). if k' = k then (k', v) else (k', r')) s"
proof (induction s)
  case Nil
  then show ?case by simp
next
  case (Cons p s)
  obtain a b where p: "p = (a, b)" by (cases p)
  show ?case
  proof (cases "a = k")
    case True
    have "\<forall>(k', r') \<in> set s. k' \<noteq> k" using Cons.prems True p by (auto simp: image_iff)
    then have "map (\<lambda>(k', r'). if k' = k then (k', v) else (k', r')) s = s"
      by (induction s) auto
    then show ?thesis using True p by simp
  next
    case False
    then show ?thesis using Cons p by simp
  qed
qed

lemma delete_as_filter: "AList.delete k s = filter (\<lambda>(k', r). k' \<noteq> k) s"
  by (induction s) auto

subsection \<open>Adding to a requirement set\<close>

lemma add_None: "map_of s (req_name i) = None \<Longrightarrow> add i s = s @ [(req_name i, i)]"
  by (simp add: add_def)

lemma add_Some:
  "map_of s (req_name i) = Some r \<Longrightarrow> add i s = AList.update (req_name i) (merge r i) s"
  by (simp add: add_def)

lemma keys_add:
  "map fst (add i s) = (if req_name i \<in> set (map fst s) then map fst s else map fst s @ [req_name i])"
  by (auto simp: add_def map_of_eq_None_iff update_keys split: option.splits)

lemma update_Cons: "update s (i # items) = update (add i s) items"
  by (simp add: update_def)

lemma keys_update:
  "map fst (update s items) =
   map fst s @ uniques (filter (\<lambda>n. n \<notin> set (map fst s)) (map req_name items))"
proof (induction items arbitrary: s)
  case Nil
  then show ?case by (simp add: update_def)
next
  case (Cons i items)
  have u: "update s (i # items) = update (add i s) items" by (simp add: update_def)
  show ?case
  proof (cases "req_name i \<in> set (map fst s)")
    case True
    then show ?thesis unfolding u Cons.IH keys_add by simp
  next
    case False
    have "filter (\<lambda>n. n \<noteq> req_name i \<and> n \<notin> fst ` set s) (map req_name items)
        = filter (\<lambda>y. y \<noteq> req_name i) (filter (\<lambda>n. n \<notin> fst ` set s) (map req_name items))"
      by (simp add: conj_commute)
    with False show ?thesis unfolding u Cons.IH keys_add by (simp del: filter_filter)
  qed
qed

lemma wf_add: "wf_reqs s \<Longrightarrow> wf_reqs (add i s)"
proof (cases "map_of s (req_name i)")
  case None
  assume "wf_reqs s"
  moreover have "req_name i \<notin> fst ` set s" using None by (simp add: map_of_eq_None_iff)
  ultimately show ?thesis unfolding add_None[OF None]
    by (simp add: wf_reqs_def)
next
  case (Some r)
  assume w: "wf_reqs s"
  then have d: "distinct (map fst s)" by (simp add: wf_reqs_def)
  have n: "req_name r = req_name i"
    using w map_of_SomeD[OF Some] by (auto simp: wf_reqs_def list_all_iff)
  have "list_all (\<lambda>(k, r). req_name r = k)
          (map (\<lambda>(k', r'). if k' = req_name i then (k', merge r i) else (k', r')) s)"
    using w n by (fastforce simp: wf_reqs_def list_all_iff merge_def split: if_splits)
  then have "list_all (\<lambda>(k, r). req_name r = k) (AList.update (req_name i) (merge r i) s)"
    by (simp only: update_as_map[OF Some d])
  moreover have "distinct (map fst (AList.update (req_name i) (merge r i) s))"
    using d by (simp add: distinct_update)
  ultimately show ?thesis
    unfolding add_Some[OF Some] wf_reqs_def by simp
qed

lemma wf_update: "wf_reqs s \<Longrightarrow> wf_reqs (update s items)"
  unfolding update_def by (induction items arbitrary: s) (auto simp: wf_add)

lemma map_of_add:
  "map_of (add i s) k =
     (if k = req_name i then
        (case map_of s k of None \<Rightarrow> Some i | Some r \<Rightarrow> Some (merge r i))
      else map_of s k)"
  by (cases "map_of s (req_name i)")
     (auto simp: add_None add_Some update_conv' map_add_def split: option.splits)


lemma map_of_update:
  "map_of (update s items) k =
     (case map_of s k of
        Some r \<Rightarrow> Some (r\<lparr>req_version := req_version r \<union> vunion items k\<rparr>)
      | None \<Rightarrow> if k \<in> set (map req_name items)
                then Some \<lparr>req_name = k, req_version = vunion items k\<rparr> else None)"
proof (induction items arbitrary: s)
  case Nil
  then show ?case by (simp add: update_def vunion_def split: option.splits)
next
  case (Cons i items)
  have v: "vunion (i # items) k = (if req_name i = k then req_version i \<union> vunion items k else vunion items k)"
    by (auto simp: vunion_def)
  show ?case
    unfolding update_Cons Cons.IH map_of_add v
    by (auto simp: merge_def SpecifierSet_and_def Un_assoc split: option.splits)
qed

subsection \<open>The loop of merge_into\<close>

lemma map_fst_merged: "map fst (map (merged_entry items) s) = map fst s"
  by (induction s) (auto simp: merged_entry_def)



lemma merged_entry_step:
  assumes Some: "map_of s (req_name i) = Some r" and d: "distinct (map fst s)"
    and ni: "map_of (map (\<lambda>i. (req_name i, i)) items) (req_name i) = None"
  shows "map (merged_entry items) (AList.update (req_name i) (merge r i) s) = map (merged_entry (i # items)) s"
proof -
  have "(k, r') \<in> set s \<Longrightarrow> k = req_name i \<Longrightarrow> r' = r" for k r'
    using Some d by (metis map_of_eq_Some_iff option.sel)
  then show ?thesis
    unfolding update_as_map[OF Some d] using ni
    by (auto simp: merged_entry_def)
qed

lemma remaining_step:
  assumes Some: "map_of s (req_name i) = Some r" 
   and  "req_name i \<notin> set (map req_name items)"
  shows "filter (\<lambda>(k, j). \<not> (k \<in> set (map req_name items) \<and> map_of (AList.update (req_name i) (merge r i) s) k \<noteq> None)) (AList.delete (req_name i) ot)
       = filter (\<lambda>(k, j). \<not> (k \<in> set (map req_name (i # items)) \<and> map_of s k \<noteq> None)) ot"
  unfolding delete_as_filter using assms
  by (auto simp: update_conv' intro!: filter_cong)

lemma merge_into_loop_char:
  "distinct (map fst s) \<Longrightarrow> distinct (map req_name items) \<Longrightarrow>
   list_all (\<lambda>i. map_of ot (req_name i) \<noteq> None) items \<Longrightarrow>
   merge_into_loop items s ot =
     (None, map (merged_entry items) s,
      filter (\<lambda>(k, i). \<not> (k \<in> set (map req_name items) \<and> map_of s k \<noteq> None)) ot)"
proof (induction items arbitrary: s ot)
  case Nil
  then show ?case by (simp add: merged_entry_def)
next
  case (Cons i items)
  show ?case
  proof (cases "map_of s (req_name i)")
    case None
    have a: "map (merged_entry (i # items)) s = map (merged_entry items) s"
      using None by (auto simp: merged_entry_def map_of_eq_None_iff image_iff)
    have b: "filter (\<lambda>(k, j). \<not> (k \<in> set (map req_name (i # items)) \<and> map_of s k \<noteq> None)) ot
           = filter (\<lambda>(k, j). \<not> (k \<in> set (map req_name items) \<and> map_of s k \<noteq> None)) ot"
      using None by (intro filter_cong) auto
    show ?thesis using Cons None a b by simp
  next
    case (Some r)
    let ?s' = "AList.update (req_name i) (merge r i) s"
    let ?o' = "AList.delete (req_name i) ot"
    obtain x where x: "map_of ot (req_name i) = Some x" using Cons.prems by auto
    have d: "distinct (map fst ?s')" using Cons.prems by (simp add: distinct_update)
    have l: "list_all (\<lambda>j. map_of ?o' (req_name j) \<noteq> None) items"
      using Cons.prems by (fastforce simp: list_all_iff delete_conv' image_iff)
    have ih: "merge_into_loop items ?s' ?o' =
       (None, map (merged_entry items) ?s',
        filter (\<lambda>(k, j). \<not> (k \<in> set (map req_name items) \<and> map_of ?s' k \<noteq> None)) ?o')"
      using Cons.IH[OF d _ l] Cons.prems by simp
    have ni: "map_of (map (\<lambda>i. (req_name i, i)) items) (req_name i) = None"
      using Cons.prems by (auto simp: map_of_eq_None_iff image_iff)
    have nin: "req_name i \<notin> set (map req_name items)" using Cons.prems by simp
    show ?thesis using Some x ih merged_entry_step[OF Some Cons.prems(1) ni] remaining_step[OF Some nin]
      by (simp add: remove_def)
  qed
qed

lemma wf_items: "wf_reqs ot \<Longrightarrow> map (\<lambda>i. (req_name i, i)) (iter ot) = ot"
  by (induction ot) (auto simp: wf_reqs_def iter_def)

lemma wf_names: "wf_reqs ot \<Longrightarrow> map req_name (iter ot) = map fst ot"
  by (induction ot) (auto simp: wf_reqs_def iter_def)

lemma merge_into_char:
  assumes "wf_reqs s" "wf_reqs ot"
  shows "merge_into s ot =
     (None,
      map (\<lambda>(k, r). (k, case map_of ot k of None \<Rightarrow> r | Some i \<Rightarrow> merge r i)) s,
      filter (\<lambda>(k, i). map_of s k = None) ot)"
proof -
  have 1: "distinct (map fst s)" using assms by (simp add: wf_reqs_def)
  have 2: "distinct (map req_name (iter ot))" using assms by (simp add: wf_names wf_reqs_def)
  have 3: "list_all (\<lambda>i. map_of ot (req_name i) \<noteq> None) (iter ot)"
    using assms(2) wf_names[OF assms(2)]
    by (auto simp: list_all_iff map_of_eq_None_iff iter_def wf_reqs_def image_iff)
  have 4: "filter (\<lambda>(k, i). \<not> (k \<in> set (map req_name (iter ot)) \<and> map_of s k \<noteq> None)) ot
      = filter (\<lambda>(k, i). map_of s k = None) ot"
    unfolding wf_names[OF assms(2)] by (intro filter_cong) (auto simp: image_iff)
  show ?thesis
    unfolding merge_into_def merge_into_loop_char[OF 1 2 3] 4
    by (simp add: merged_entry_def wf_items[OF assms(2)])
qed


subsection \<open>Splitting\<close>

lemma split_names:
  "Requirement_split vs r single = Inr xs \<Longrightarrow> map sreq_name xs = replicate (length xs) (req_name r)"
  by (auto simp: Requirement_split_def Let_def map_replicate_const comp_def split: if_splits)

lemma sort_key_replicate:
  "map f xs = replicate (length xs) c \<Longrightarrow> sort_key f xs = xs"
  by (rule sort_key_id_if_sorted) (simp add: sorted_replicate)

lemma split_singleton: "RequirementSet_split vs [(k, r)] single = Requirement_split vs r single"
  by (cases "Requirement_split vs r single")
     (simp_all add: RequirementSet_split_def iter_def sort_key_replicate[OF split_names])

subsection \<open>Filtering package references\<close>

lemma filter_packages_loop_char:
  "filter_packages_loop items pc sys =
     (case first_unsupported items of
        Some t \<Rightarrow> Inl (TypeError (''unsupported package type: '' @ t))
      | None \<Rightarrow> Inr (update pc (pkg_config_reqs items), uniques (sys @ system_packages items)))"
  by (induction items pc sys rule: filter_packages_loop.induct)
     (auto simp: update_Cons update_def split: option.splits)

lemma wf_filter_packages:
  "filter_packages items = Inr (s, sys) \<Longrightarrow> wf_reqs s"
proof -
  have "wf_reqs []" by (simp add: wf_reqs_def)
  then have "wf_reqs (update [] (pkg_config_reqs items))" by (rule wf_update)
  moreover assume "filter_packages items = Inr (s, sys)"
  ultimately show ?thesis
    by (auto simp: filter_packages_def filter_packages_loop_char split: option.splits)
qed

text \<open>The setters store well-formed sets, so every descriptor holds well-formed sets.\<close>

lemma wf_set_packages:
  "set_packages value = Inr v \<Longrightarrow> wf_reqs (declared_set v)"
proof (cases v)
  case None
  then show ?thesis by (simp add: declared_set_def wf_reqs_def)
next
  case (Some p)
  assume "set_packages value = Inr v"
  then obtain xs where "filter_packages xs = Inr (fst p, snd p)"
    using Some by (auto simp: set_packages_def split: option.splits sum.splits)
  then have "wf_reqs (fst p)" by (rule wf_filter_packages)
  then show ?thesis using Some by (simp add: declared_set_def)
qed

subsection \<open>Names after splitting\<close>



subsection \<open>The steps of resolution\<close>

lemmas process_inputs_eval =
  process_inputs_def or_else_def or_empty_def str_opt_def fwd_ldflags_def
  resolve_libs_private_def forwarded_options_def forwarded_libs_def filter_packages_def
  update_def iter_def merge_into_def RequirementSet_split_def process_packages_def
  store_sets_def store_lists_def Let_def

lemma process_inputs_Inr:
  assumes "fst (process_inputs vs g d) = Inr res"
  obtains auto_requires auto_extra requires1 requires_private2 f1 f2 where
    "filter_packages (library_deps g d) = Inr (auto_requires, auto_extra)"
    "merge_into (declared_set (requires d))
       (update (declared_set (requires_private d)) (iter auto_requires))
     = (None, requires1, requires_private2)"
    "RequirementSet_split vs requires1 True = Inr (r_requires res)"
    "RequirementSet_split vs requires_private2 True = Inr (r_requires_private res)"
    "process_packages (declared_system (requires d)) False (initial_fields g d) = (None, f1)"
    "process_packages (declared_system (requires_private d) @ auto_extra) True f1 = (None, f2)"
    "r_includes res = f_includes f2" "r_libs res = f_libs f2"
    "r_libs_private res = f_libs_private f2"
  using assms
  unfolding process_inputs_def Let_def declared_set_def declared_system_def library_deps_def
    initial_fields_def
  by (auto split: sum.splits prod.splits option.splits)


subsection \<open>Options of system packages\<close>

lemma process_options_keeps: "process_options priv opts f = (e, f') \<Longrightarrow> f' = f"
  by (cases opts) (auto simp: isiterable_def)

lemma process_packages_keeps: "process_packages pkgs priv f = (e, f') \<Longrightarrow> f' = f"
  unfolding process_packages_def by (rule process_options_keeps)

lemma set_resolve_libs_private:
  "set (resolve_libs_private g ls lp) =
     set lp \<union> (\<Union>i \<in> set lp - set ls. set (forwarded_libs g i))"
  unfolding resolve_libs_private_def set_uniques by auto

subsection \<open>Duplicate names\<close>

lemma not_distinct_count: "\<not> distinct xs \<Longrightarrow> \<exists>x \<in> set xs. count_list xs x > 1"
proof (induction xs)
  case Nil
  then show ?case by simp
next
  case (Cons a xs)
  show ?case
  proof (cases "a \<in> set xs")
    case True
    then have "count_list xs a \<noteq> 0" by (simp add: count_list_0_iff)
    then show ?thesis by simp
  next
    case False
    then have "\<not> distinct xs" using Cons.prems by simp
    then obtain x where x: "x \<in> set xs" "count_list xs x > 1" using Cons.IH by auto
    then have "count_list (a # xs) x > 1" by simp
    then show ?thesis using x by (intro bexI[of _ x]) simp_all
  qed
qed

lemma duplicate_name_Some:
  assumes "\<not> distinct names"
  shows "\<exists>n. duplicate_name names = Some n \<and> count_list names n > 1"
proof -
  from not_distinct_count[OF assms] obtain x where "x \<in> set names" "count_list names x > 1"
    by auto
  then have "List.find (\<lambda>n. count_list names n > 1) (uniques names) \<noteq> None"
    by (auto simp: find_None_iff set_uniques)
  then obtain n where n: "List.find (\<lambda>n. count_list names n > 1) (uniques names) = Some n"
    by auto
  then have "count_list names n > 1" by (auto simp: find_Some_iff)
  with n show ?thesis by (auto simp: duplicate_name_def)
qed

subsection \<open>Resolving a second time\<close>

lemma process_inputs_alt:
  "process_inputs vs g d =
     (case filter_packages (library_deps g d) of
        Inl e \<Rightarrow> (Inl e, d)
      | Inr (auto_requires, auto_extra) \<Rightarrow>
          (case merge_into (declared_set (requires d))
                  (update (declared_set (requires_private d)) (iter auto_requires)) of
             (Some e, requires1, requires_private2) \<Rightarrow>
               (Inl e, store_sets d requires1 requires_private2)
           | (None, requires1, requires_private2) \<Rightarrow>
               resolve_rest vs g d auto_extra requires1 requires_private2))"
  unfolding process_inputs_def resolve_rest_def Let_def declared_set_def declared_system_def
    library_deps_def initial_fields_def
  by (cases "requires d"; cases "requires_private d")
     (auto split: sum.splits prod.splits option.splits)

lemma add_covered:
  assumes "map_of s (req_name i) = Some r" and "req_version i \<subseteq> req_version r"
  shows "add i s = s"
proof -
  have "merge r i = r" using assms(2) by (simp add: merge_def SpecifierSet_and_def Un_absorb2)
  then show ?thesis unfolding add_Some[OF assms(1)] using assms(1) by (simp add: update_triv)
qed

lemma update_covered:
  "list_all (\<lambda>i. \<exists>r. map_of s (req_name i) = Some r \<and> req_version i \<subseteq> req_version r) J
   \<Longrightarrow> update s J = s"
  by (induction J) (auto simp: update_Cons add_covered update_def)

lemma vunion_member: "i \<in> set J \<Longrightarrow> req_version i \<subseteq> vunion J (req_name i)"
  by (auto simp: vunion_def)

lemma update_idem: "update (update t J) J = update t J"
proof (rule update_covered)
  show "list_all (\<lambda>i. \<exists>r. map_of (update t J) (req_name i) = Some r
            \<and> req_version i \<subseteq> req_version r) J"
    unfolding list_all_iff
  proof
    fix i assume i: "i \<in> set J"
    show "\<exists>r. map_of (update t J) (req_name i) = Some r \<and> req_version i \<subseteq> req_version r"
      using i vunion_member[OF i] unfolding map_of_update
      by (auto split: option.splits)
  qed
qed

lemma map_of_filter_key:
  "map_of (filter (\<lambda>(k, v). P k) s) k = (if P k then map_of s k else None)"
  by (induction s) auto

lemma filter_alist_update:
  "map_of s k \<noteq> None \<Longrightarrow>
   filter (\<lambda>(k, v). P k) (AList.update k v s) =
     (if P k then AList.update k v (filter (\<lambda>(k, v). P k) s) else filter (\<lambda>(k, v). P k) s)"
  by (induction s) auto

lemma filter_add:
  "filter (\<lambda>(k, v). P k) (add i s) =
     (if P (req_name i) then add i (filter (\<lambda>(k, v). P k) s) else filter (\<lambda>(k, v). P k) s)"
proof (cases "map_of s (req_name i)")
  case None
  then show ?thesis by (simp add: add_None map_of_filter_key)
next
  case (Some r)
  then show ?thesis
    by (simp add: add_Some map_of_filter_key filter_alist_update)
qed

lemma filter_update:
  "filter (\<lambda>(k, v). P k) (update s J) =
     update (filter (\<lambda>(k, v). P k) s) (filter (\<lambda>i. P (req_name i)) J)"
proof (induction J arbitrary: s)
  case Nil
  then show ?case by (simp add: update_def)
next
  case (Cons i J)
  then show ?case by (simp add: update_Cons filter_add)
qed

lemma merge_absorb: "req_version j \<subseteq> req_version r \<Longrightarrow> merge r j = r"
  by (simp add: merge_def SpecifierSet_and_def Un_absorb2)

lemma merge_into_result:
  "wf_reqs s \<Longrightarrow> wf_reqs ot \<Longrightarrow>
   merge_into s ot = (None, merged_with ot s, without_keys_of s ot)"
  by (simp add: merge_into_char merged_with_def without_keys_of_def)

lemma keys_merged_with: "map fst (merged_with ot s) = map fst s"
  by (induction s) (auto simp: merged_with_def)

lemma map_of_merged_with_None: "map_of (merged_with ot s) k = None \<longleftrightarrow> map_of s k = None"
  by (metis keys_merged_with list.set_map map_of_eq_None_iff)

lemma wf_merged_with: "wf_reqs s \<Longrightarrow> wf_reqs (merged_with ot s)"
  unfolding wf_reqs_def keys_merged_with
  by (auto simp: merged_with_def list_all_iff merge_def split: option.splits)

lemma wf_without_keys_of: "wf_reqs ot \<Longrightarrow> wf_reqs (without_keys_of s ot)"
  unfolding wf_reqs_def without_keys_of_def
  by (auto simp: list_all_iff distinct_map_filter)

lemma without_keys_merged: "without_keys_of (merged_with x s) ot = without_keys_of s ot"
  by (simp add: without_keys_of_def map_of_merged_with_None)

lemma rerun_private:
  "without_keys_of s (update (without_keys_of s (update rp0 J)) J)
     = without_keys_of s (update rp0 J)"
proof -
  let ?P = "\<lambda>k. map_of s k = None"
  let ?JP = "filter (\<lambda>i. ?P (req_name i)) J"
  let ?t = "filter (\<lambda>(k, v). ?P k) rp0"
  have a: "without_keys_of s x = filter (\<lambda>(k, v). ?P k) x" for x
    by (simp add: without_keys_of_def)
  have b: "filter (\<lambda>(k, v). ?P k) (update ?t ?JP) = update ?t ?JP"
    using filter_update[of ?P rp0 J, symmetric] by (simp add: filter_update)
  show ?thesis
    unfolding a filter_update b by (simp add: update_idem)
qed

lemma merged_with_absorb:
  assumes "\<And>k j. map_of B k = Some j \<Longrightarrow> map_of s k \<noteq> None \<Longrightarrow>
             \<exists>i. map_of A k = Some i \<and> req_version j \<subseteq> req_version i"
  shows "merged_with B (merged_with A s) = merged_with A s"
proof -
  have "(case map_of B k of None \<Rightarrow> (case map_of A k of None \<Rightarrow> r | Some i \<Rightarrow> merge r i)
         | Some j \<Rightarrow> merge (case map_of A k of None \<Rightarrow> r | Some i \<Rightarrow> merge r i) j)
        = (case map_of A k of None \<Rightarrow> r | Some i \<Rightarrow> merge r i)"
    if "(k, r) \<in> set s" for k r
  proof (cases "map_of B k")
    case None
    then show ?thesis by simp
  next
    case (Some j)
    have "map_of s k \<noteq> None" using weak_map_of_SomeI[OF that] by auto
    from assms[OF Some this] obtain i where i: "map_of A k = Some i"
      "req_version j \<subseteq> req_version i" by auto
    have "req_version j \<subseteq> req_version (merge r i)"
      using i(2) by (auto simp: merge_def SpecifierSet_and_def)
    then show ?thesis using Some i(1) by (simp add: merge_absorb)
  qed
  then have "(\<lambda>(k, r). (k, case map_of B k of None \<Rightarrow> r | Some i \<Rightarrow> merge r i))
          ((\<lambda>(k, r). (k, case map_of A k of None \<Rightarrow> r | Some i \<Rightarrow> merge r i)) x)
        = (\<lambda>(k, r). (k, case map_of A k of None \<Rightarrow> r | Some i \<Rightarrow> merge r i)) x"
    if "x \<in> set s" for x
    using that by (cases x) simp
  then show ?thesis
    unfolding merged_with_def map_map by (intro map_cong[OF refl]) simp
qed

lemma rerun_public_same: "merged_with A (merged_with A s) = merged_with A s"
  by (rule merged_with_absorb) auto

lemma rerun_public:
  "merged_with (update (without_keys_of s (update rp0 J)) J) (merged_with (update rp0 J) s)
     = merged_with (update rp0 J) s"
proof (rule merged_with_absorb)
  fix k j
  assume j: "map_of (update (without_keys_of s (update rp0 J)) J) k = Some j"
    and k: "map_of s k \<noteq> None"
  have "map_of (without_keys_of s (update rp0 J)) k = None"
    using k by (auto simp: without_keys_of_def map_of_filter_key)
  then have jj: "k \<in> set (map req_name J)" "j = \<lparr>req_name = k, req_version = vunion J k\<rparr>"
    using j unfolding map_of_update by (auto split: if_splits)
  show "\<exists>i. map_of (update rp0 J) k = Some i \<and> req_version j \<subseteq> req_version i"
    using jj unfolding map_of_update by (auto split: option.splits)
qed

lemma store_lists_same:
  "f_includes f = or_empty (includes' s) \<Longrightarrow> f_libs f = or_empty (libs s) \<Longrightarrow>
   store_lists s f = s"
  by (cases "includes' s"; cases "libs s")
     (auto simp: store_lists_def or_empty_def split: list.splits)

lemma store_sets_fields:
  "name (store_sets d a b) = name d" "desc_name (store_sets d a b) = desc_name d"
  "desc (store_sets d a b) = desc d" "url (store_sets d a b) = url d"
  "version (store_sets d a b) = version d" "lang (store_sets d a b) = lang d"
  "conflicts (store_sets d a b) = conflicts d" "includes' (store_sets d a b) = includes' d"
  "libs (store_sets d a b) = libs d" "libs_private (store_sets d a b) = libs_private d"
  "options (store_sets d a b) = options d" "link_options (store_sets d a b) = link_options d"
  "link_options_private (store_sets d a b) = link_options_private d"
  by (simp_all add: store_sets_def)

lemma store_sets_system:
  "declared_system (requires (store_sets d a b)) = declared_system (requires d)"
  "declared_system (requires_private (store_sets d a b)) = declared_system (requires_private d)"
  by (auto simp: store_sets_def declared_system_def split: option.splits)

lemma store_sets_twice: "store_sets (store_sets d a b) r1 rp2 = store_sets d r1 rp2"
  by (auto simp: store_sets_def split: option.splits)

lemma store_sets_derived:
  "initial_fields g (store_sets d a b) = initial_fields g d"
  "library_deps g (store_sets d a b) = library_deps g d"
  by (simp_all add: initial_fields_def library_deps_def store_sets_fields)

lemma resolve_rest_store_sets:
  "resolve_rest vs g (store_sets d a b) ae r1 rp2 = resolve_rest vs g d ae r1 rp2"
  unfolding resolve_rest_def
  by (simp only: store_sets_fields store_sets_system store_sets_twice store_sets_derived)

lemma snd_resolve_rest:
  "snd (resolve_rest vs g d ae r1 rp2) = store_sets d r1 rp2"
proof -
  obtain e1 f1 where p1:
    "process_packages (declared_system (requires d)) False (initial_fields g d) = (e1, f1)"
    by force
  obtain e2 f2 where p2:
    "process_packages (declared_system (requires_private d) @ ae) True f1 = (e2, f2)"
    by force
  have c1: "f1 = initial_fields g d" using p1 by (rule process_packages_keeps)
  have c2: "f2 = initial_fields g d" using process_packages_keeps[OF p2] c1 by simp
  have s: "store_lists (store_sets d r1 rp2) (initial_fields g d) = store_sets d r1 rp2"
    by (rule store_lists_same) (simp_all add: initial_fields_def store_sets_fields)
  have s1: "store_lists (store_sets d r1 rp2) f1 = store_sets d r1 rp2"
    using s c1 by simp
  have s2: "store_lists (store_sets d r1 rp2) f2 = store_sets d r1 rp2"
    using s c2 by simp
  show ?thesis
    using s1 s2
    by (auto simp: resolve_rest_def Let_def p1 p2 split: sum.splits option.splits)
qed

lemma declared_set_store_sets:
  "declared_set (requires (store_sets d (merged_with x (declared_set (requires d))) b))
     = merged_with x (declared_set (requires d))"
  by (cases "requires d") (auto simp: store_sets_def declared_set_def merged_with_def)

lemma declared_private_store_sets:
  "declared_set (requires_private (store_sets d a b))
     = (case requires_private d of None \<Rightarrow> [] | Some p \<Rightarrow> b)"
  by (cases "requires_private d") (auto simp: store_sets_def declared_set_def)

lemma rerun:
  assumes w1: "wf_reqs (declared_set (requires d))"
    and w2: "wf_reqs (declared_set (requires_private d))"
  shows "process_inputs vs g (snd (process_inputs vs g d)) = process_inputs vs g d
         \<and> lang (snd (process_inputs vs g d)) = lang d"
proof (cases "filter_packages (library_deps g d)")
  case (Inl e)
  then have "process_inputs vs g d = (Inl e, d)" by (simp add: process_inputs_alt)
  then show ?thesis by simp
next
  case (Inr p)
  obtain ar ae where p: "p = (ar, ae)" by (cases p)
  let ?J = "iter ar"
  let ?req0 = "declared_set (requires d)"
  let ?rp0 = "declared_set (requires_private d)"
  let ?rp1 = "update ?rp0 ?J"
  let ?req1 = "merged_with ?rp1 ?req0"
  let ?rp2 = "without_keys_of ?req0 ?rp1"
  let ?d1 = "store_sets d ?req1 ?rp2"
  have wrp1: "wf_reqs ?rp1" using w2 by (rule wf_update)
  have m1: "merge_into ?req0 ?rp1 = (None, ?req1, ?rp2)"
    using w1 wrp1 by (rule merge_into_result)
  have first: "process_inputs vs g d = resolve_rest vs g d ae ?req1 ?rp2"
    using Inr p m1 by (simp add: process_inputs_alt)
  have st: "snd (process_inputs vs g d) = ?d1"
    unfolding first by (rule snd_resolve_rest)
  have fp: "filter_packages (library_deps g ?d1) = Inr (ar, ae)"
    using Inr p by (simp add: store_sets_derived)
  have wreq1: "wf_reqs ?req1" using w1 by (rule wf_merged_with)
  have wrp2: "wf_reqs ?rp2" using wrp1 by (rule wf_without_keys_of)
  have m2: "merge_into (declared_set (requires ?d1))
              (update (declared_set (requires_private ?d1)) ?J) = (None, ?req1, ?rp2)"
  proof (cases "requires_private d")
    case None
    then have e: "declared_set (requires_private ?d1) = ?rp0"
      unfolding declared_private_store_sets by (simp add: declared_set_def)
    show ?thesis
      unfolding declared_set_store_sets e merge_into_result[OF wreq1 wrp1]
      by (simp add: rerun_public_same without_keys_merged)
  next
    case (Some q)
    then have e: "declared_set (requires_private ?d1) = ?rp2"
      by (simp add: declared_private_store_sets)
    have w: "wf_reqs (update ?rp2 ?J)" using wrp2 by (rule wf_update)
    show ?thesis
      unfolding declared_set_store_sets e merge_into_result[OF wreq1 w]
      by (simp add: rerun_public rerun_private without_keys_merged)
  qed
  have second: "process_inputs vs g ?d1 = resolve_rest vs g ?d1 ae ?req1 ?rp2"
    using fp m2 by (simp add: process_inputs_alt)
  have "process_inputs vs g (snd (process_inputs vs g d)) = process_inputs vs g ?d1"
    by (simp only: st)
  also have "\<dots> = resolve_rest vs g ?d1 ae ?req1 ?rp2" by (rule second)
  also have "\<dots> = resolve_rest vs g d ae ?req1 ?rp2" by (rule resolve_rest_store_sets)
  also have "\<dots> = process_inputs vs g d" by (rule first[symmetric])
  finally have a: "process_inputs vs g (snd (process_inputs vs g d)) = process_inputs vs g d" .
  have b: "lang (snd (process_inputs vs g d)) = lang d"
    by (simp only: st store_sets_fields)
  show ?thesis using a b by (rule conjI)
qed

lemmas process_inputs_eval_full =
  process_inputs_eval Requirement_init_def add_def remove_def merge_def
  SpecifierSet_and_def Requirement_split_def isiterable_def

subsection \<open>Writing requirement entries\<close>

lemma safe_str_render: "safe_str r = shell_literal (render_requirement r)"
  by (simp add: safe_str_def render_requirement_def Let_def split: option.splits)

lemma write_each_requirements:
  "write_each env (map (\<lambda>r. Safe (safe_str r)) reqs) syntax d
     = join_with d (map render_requirement reqs)"
proof (induction d "map render_requirement reqs" arbitrary: reqs rule: join_with.induct)
  case (1 d)
  then show ?case by simp
next
  case (2 d x)
  then show ?case by (auto simp: Writer_write_def safe_str_render)
next
  case (3 d x y ys)
  from "3.hyps"(2) obtain a b rest where r: "reqs = a # b # rest"
    by (cases reqs; cases "tl reqs") auto
  have "y # ys = map render_requirement (b # rest)" using "3.hyps"(2) r by simp
  from "3.hyps"(1)[OF this] show ?case
    using r "3.hyps"(2) by (simp add: Writer_write_def safe_str_render)
qed

section \<open>Theorems\<close>

subsection \<open>Requirement.merge\<close>

text \<open>
  Claim C9. For all requirements \<open>r1\<close> and \<open>r2\<close>, whatever their names,
  \<open>r1.merge(r2)\<close> keeps the name of \<open>r1\<close> and replaces its version constraint with
  the combination of both constraints: a comparison is in the result exactly when it
  is in one of the two. The name of \<open>r2\<close> plays no part and no error is possible.
\<close>

theorem merge_keeps_name:
  "req_name (merge r1 r2) = req_name r1
   \<and> req_version (merge r1 r2) = SpecifierSet_and (req_version r1) (req_version r2)
   \<and> (s \<in> req_version (merge r1 r2) \<longleftrightarrow> s \<in> req_version r1 \<or> s \<in> req_version r2)
   \<and> merge r1 (r2\<lparr>req_name := other_name\<rparr>) = merge r1 r2"
  by (simp add: merge_def SpecifierSet_and_def)

subsection \<open>RequirementSet.merge_into\<close>

text \<open>
  Claim C3. For requirement sets \<open>self\<close> and \<open>other\<close> (dictionaries keyed by the names of
  their requirements), \<open>self.merge_into(other)\<close> raises nothing; every entry of \<open>self\<close>
  whose name is in \<open>other\<close> is merged with that item, every other entry of \<open>self\<close> is
  unchanged; \<open>other\<close> keeps, in order and unchanged, exactly its items whose names are
  not in \<open>self\<close>. The example of the spec is the instance \<open>merge_into_example\<close>.
\<close>

theorem merge_into_moves_matches:
  assumes "wf_reqs self" and "wf_reqs other"
  shows "merge_into self other =
     (None,
      map (\<lambda>(k, r). (k, case map_of other k of None \<Rightarrow> r | Some i \<Rightarrow> merge r i)) self,
      filter (\<lambda>(k, i). map_of self k = None) other)"
  using assms by (rule merge_into_char)

theorem merge_into_example:
  "wf_reqs [(''A'', req ''A'' {spec ''>='' ''1.0''})]
   \<and> wf_reqs [(''A'', req ''A'' {spec ''<'' ''2.0''}), (''B'', req ''B'' {spec ''>='' ''3.0''})]
   \<and> merge_into [(''A'', req ''A'' {spec ''>='' ''1.0''})]
        [(''A'', req ''A'' {spec ''<'' ''2.0''}), (''B'', req ''B'' {spec ''>='' ''3.0''})]
      = (None, [(''A'', req ''A'' {spec ''>='' ''1.0'', spec ''<'' ''2.0''})],
         [(''B'', req ''B'' {spec ''>='' ''3.0''})])"
proof -
  have 1: "wf_reqs [(''A'', req ''A'' {spec ''>='' ''1.0''})]"
    by (simp add: wf_reqs_def)
  have 2: "wf_reqs [(''A'', req ''A'' {spec ''<'' ''2.0''}), (''B'', req ''B'' {spec ''>='' ''3.0''})]"
    by (simp add: wf_reqs_def)
  show ?thesis
    using 1 2 merge_into_moves_matches[OF 1 2]
    by (simp add: merge_def SpecifierSet_and_def insert_commute)
qed

subsection \<open>Requirement.split and RequirementSet.split\<close>

text \<open>
  Claim C4. \<open>Requirement.split(single)\<close> returns one unconstrained SimpleRequirement
  when the constraint simplifies to the empty sequence; otherwise one SimpleRequirement
  per simplified comparison, unless \<open>single\<close> is set and there is more than one
  comparison: then it raises the error whose message holds the constraint and the name of
  the package. \<open>RequirementSet.split\<close> on a set of one requirement does the same. In
  the instance \<open>split_single_limit_example\<close> the set holding \<open>(P, "!=1.5")\<close> splits and
  the set holding \<open>(P, ">=1.0")\<close> merged with \<open>(P, "!=1.5")\<close> fails.
\<close>

theorem split_single_limit:
  "(simplify_specifiers vs (req_version r) = [] \<longrightarrow>
      Requirement_split vs r single = Inr [\<lparr>sreq_name = req_name r, sreq_version = None\<rparr>])
   \<and> (simplify_specifiers vs (req_version r) \<noteq> []
        \<and> (single \<longrightarrow> length (simplify_specifiers vs (req_version r)) = 1) \<longrightarrow>
      Requirement_split vs r single =
        Inr (map (\<lambda>c. \<lparr>sreq_name = req_name r, sreq_version = Some c\<rparr>)
               (simplify_specifiers vs (req_version r))))
   \<and> (single \<and> length (simplify_specifiers vs (req_version r)) > 1 \<longrightarrow>
      Requirement_split vs r single =
        Inl (ValueError (''multiple specifiers ('' @ str_SpecifierSet vs (req_version r)
               @ '') used in pkg-config requirement for '' @ quoted (req_name r))))
   \<and> RequirementSet_split vs [(k, r)] single = Requirement_split vs r single"
  by (auto simp: Requirement_split_def Let_def split_singleton)

theorem split_single_limit_example:
  "RequirementSet_split example_versioning
       (RequirementSet_init [req ''P'' {spec ''!='' ''1.5''}]) True
     = Inr [\<lparr>sreq_name = ''P'', sreq_version = Some (spec ''!='' ''1.5'')\<rparr>]
   \<and> RequirementSet_split example_versioning
       (RequirementSet_init [req ''P'' {spec ''>='' ''1.0''}, req ''P'' {spec ''!='' ''1.5''}]) True
     = Inl (ValueError (''multiple specifiers (>=1.0,!=1.5) used in pkg-config requirement for ''
              @ quoted ''P''))"
proof -
  have a: "RequirementSet_init [req ''P'' {spec ''!='' ''1.5''}]
            = [(''P'', req ''P'' {spec ''!='' ''1.5''})]"
    by (simp add: RequirementSet_init_def update_def add_def)
  have b: "RequirementSet_init [req ''P'' {spec ''>='' ''1.0''}, req ''P'' {spec ''!='' ''1.5''}]
            = [(''P'', req ''P'' {spec ''>='' ''1.0'', spec ''!='' ''1.5''})]"
    by (simp add: RequirementSet_init_def update_def add_def merge_def SpecifierSet_and_def
          insert_commute)
  show ?thesis
    unfolding a b
    using split_single_limit[of example_versioning "req ''P'' {spec ''!='' ''1.5''}" True "''P''"]
      split_single_limit[of example_versioning
        "req ''P'' {spec ''>='' ''1.0'', spec ''!='' ''1.5''}" True "''P''"]
    by simp
qed


subsection \<open>Filtering package references\<close>

text \<open>
  Claim C5. \<open>_filter_packages\<close> fails with the TypeError naming the type of the first
  entry that is neither a string, a tuple or list, a pkg-config package nor a system
  package; otherwise it returns the requirement set built from the pkg-config style
  entries and the system packages deduplicated in first-seen order. The set has one
  entry per name, in first-seen order, whose constraint combines the constraints of all
  entries of that name. In the instance \<open>filter_packages_zlib\<close>, \<open>"zlib"\<close> and
  \<open>("zlib", ">=1.2")\<close> end up in one entry with the constraint \<open>">=1.2"\<close>.
\<close>

theorem filter_packages_partition:
  "filter_packages items =
     (case first_unsupported items of
        Some t \<Rightarrow> Inl (TypeError (''unsupported package type: '' @ t))
      | None \<Rightarrow> Inr (RequirementSet_init (pkg_config_reqs items),
                     uniques (system_packages items)))
   \<and> map fst (RequirementSet_init (pkg_config_reqs items))
       = uniques (map req_name (pkg_config_reqs items))
   \<and> map_of (RequirementSet_init (pkg_config_reqs items)) k
       = (if k \<in> set (map req_name (pkg_config_reqs items))
          then Some \<lparr>req_name = k, req_version = vunion (pkg_config_reqs items) k\<rparr>
          else None)
   \<and> distinct (uniques (system_packages items))
   \<and> set (uniques (system_packages items)) = set (system_packages items)"
  by (simp add: filter_packages_def filter_packages_loop_char RequirementSet_init_def
        keys_update map_of_update distinct_uniques set_uniques split: option.splits)

theorem filter_packages_zlib:
  "filter_packages [Str ''zlib'', Tuple ''zlib'' (Some {spec ''>='' ''1.2''})]
     = Inr ([(''zlib'', req ''zlib'' {spec ''>='' ''1.2''})], [])
   \<and> filter_packages [Str ''zlib'', Other ''int''] = Inl (TypeError ''unsupported package type: int'')"
  using filter_packages_partition[of "[Str ''zlib'', Tuple ''zlib'' (Some {spec ''>='' ''1.2''})]"]
    filter_packages_partition[of "[Str ''zlib'', Other ''int'']"]
  by (simp add: RequirementSet_init_def update_def add_def merge_def SpecifierSet_and_def
        Requirement_init_def)

subsection \<open>Forwarded libraries\<close>

text \<open>
  Claim C1, on the scenario of the spec: a descriptor named \<open>foo\<close> with \<open>libs = [A]\<close>,
  where \<open>A\<close> forwards library \<open>B\<close> and the link option \<open>-DFOO\<close>, and \<open>libs_private\<close>
  unset. The code resolves \<open>libs\<close> to \<open>[A]\<close> and puts \<open>-DFOO\<close> among the private link
  options, and it resolves \<open>libs_private\<close> to the empty list: the filter
  \<open>if i not in libs\<close> drops every library of \<open>libs\<close> before its forwarded libraries are
  read, so \<open>B\<close> is never collected.
\<close>

theorem forwarded_libs_of_public_lib_dropped:
  "fst (process_inputs example_versioning forwarding_graph
          (empty_info\<lparr>name := Some ''foo'', libs := Some [''A'']\<rparr>))
   = Inr \<lparr>r_name = Some ''foo'', r_desc_name = Some ''foo'', r_url = None, r_version = None,
          r_desc = ''foo library'', r_requires = [], r_requires_private = [],
          r_conflicts = [], r_includes = [], r_libs = [''A''], r_libs_private = [],
          r_extra_fields = [], r_cflags = [], r_ldflags = [],
          r_ldflags_private = [''-DFOO'']\<rparr>"
  by (simp add: process_inputs_eval)

text \<open>
  Claim C2, as amended. When the declared \<open>libs\<close> and \<open>libs_private\<close> share no library
  and no declared private library forwards a library of \<open>libs\<close>, the resolved \<open>libs\<close>
  and \<open>libs_private\<close> of every descriptor that resolves share no library. As stated,
  for every descriptor, the claim fails: see \<open>libs_overlap_counterexample\<close>, where a
  library declared in both lists stays in both.
\<close>

theorem libs_disjoint_when_inputs_are:
  assumes "fst (process_inputs vs g d) = Inr res"
    and "set (or_empty (libs d)) \<inter> set (or_empty (libs_private d)) = {}"
    and "list_all (\<lambda>i. list_all (\<lambda>l. l \<notin> set (or_empty (libs d))) (forwarded_libs g i))
           (or_empty (libs_private d))"
  shows "set (r_libs res) \<inter> set (r_libs_private res) = {}"
proof -
  from assms(1) obtain auto_extra f1 f2 where
    p1: "process_packages (declared_system (requires d)) False (initial_fields g d) = (None, f1)"
    and p2: "process_packages (declared_system (requires_private d) @ auto_extra) True f1 = (None, f2)"
    and l: "r_libs res = f_libs f2" and lp: "r_libs_private res = f_libs_private f2"
    by (rule process_inputs_Inr)
  have f: "f2 = initial_fields g d"
    using process_packages_keeps[OF p1] process_packages_keeps[OF p2] by simp
  have "set (or_empty (libs d)) \<inter>
        set (resolve_libs_private g (or_empty (libs d)) (or_empty (libs_private d))) = {}"
    using assms(2,3) unfolding set_resolve_libs_private by (auto simp: list_all_iff)
  then show ?thesis using f l lp by (simp add: initial_fields_def)
qed

theorem libs_disjoint_example:
  "fst (process_inputs example_versioning forwarding_graph
          (empty_info\<lparr>name := Some ''foo'', libs := Some [''C''], libs_private := Some [''A'']\<rparr>))
   = Inr \<lparr>r_name = Some ''foo'', r_desc_name = Some ''foo'', r_url = None, r_version = None,
          r_desc = ''foo library'', r_requires = [], r_requires_private = [],
          r_conflicts = [], r_includes = [], r_libs = [''C''], r_libs_private = [''B'', ''A''],
          r_extra_fields = [], r_cflags = [], r_ldflags = [],
          r_ldflags_private = [''-DFOO'']\<rparr>
   \<and> set [''C''] \<inter> set [''B'', ''A''] = {}"
proof -
  let ?d = "empty_info\<lparr>name := Some ''foo'', libs := Some [''C''], libs_private := Some [''A'']\<rparr>"
  have e: "fst (process_inputs example_versioning forwarding_graph ?d)
   = Inr \<lparr>r_name = Some ''foo'', r_desc_name = Some ''foo'', r_url = None, r_version = None,
          r_desc = ''foo library'', r_requires = [], r_requires_private = [],
          r_conflicts = [], r_includes = [], r_libs = [''C''], r_libs_private = [''B'', ''A''],
          r_extra_fields = [], r_cflags = [], r_ldflags = [],
          r_ldflags_private = [''-DFOO'']\<rparr>"
    by (simp add: process_inputs_eval)
  have 2: "set (or_empty (libs ?d)) \<inter> set (or_empty (libs_private ?d)) = {}"
    by (simp add: or_empty_def)
  have 3: "list_all (\<lambda>i. list_all (\<lambda>l. l \<notin> set (or_empty (libs ?d))) (forwarded_libs forwarding_graph i))
           (or_empty (libs_private ?d))"
    by (simp add: or_empty_def forwarded_libs_def)
  show ?thesis
    using e libs_disjoint_when_inputs_are[OF e 2 3] by simp
qed

theorem libs_overlap_counterexample:
  "\<exists>res. fst (process_inputs example_versioning forwarding_graph
          (empty_info\<lparr>name := Some ''foo'', libs := Some [''C''], libs_private := Some [''C'']\<rparr>))
      = Inr res \<and> set (r_libs res) \<inter> set (r_libs_private res) = {''C''}"
  by (simp add: process_inputs_eval)


subsection \<open>Public and private requirements\<close>






subsection \<open>Duplicate descriptor names\<close>

text \<open>
  Claim C8, as amended. When two or more descriptors of a build have the same name
  (after the defaults are filled in), the finalization pass raises the error whose
  message holds that name, and no file is written. The message holds the name only: as
  stated, with the count, the claim fails, see \<open>duplicate_error_has_no_count\<close>.
\<close>

theorem duplicate_names_stop_the_pass:
  assumes "\<not> distinct (map name (map (fill_defaults build) (pkg_config build)))"
  shows "\<exists>n. count_list (map name (map (fill_defaults build) (pkg_config build))) n > 1
           \<and> finalize_pkg_config env vs g build
               = (Some (ValueError (''duplicate pkg-config package '' @ quoted (str_opt n))),
                  [], map (fill_defaults build) (pkg_config build))"
  using duplicate_name_Some[OF assms] by (auto simp: finalize_pkg_config_def Let_def)

theorem duplicate_names_example:
  "\<not> distinct (map name (map (fill_defaults two_foo) (pkg_config two_foo)))
   \<and> finalize_pkg_config example_environment example_versioning forwarding_graph two_foo
       = (Some (ValueError (''duplicate pkg-config package '' @ quoted ''foo'')), [],
          map (fill_defaults two_foo) (pkg_config two_foo))"
proof -
  have d: "\<not> distinct (map name (map (fill_defaults two_foo) (pkg_config two_foo)))"
    by (simp add: fill_defaults_def)
  have e: "finalize_pkg_config example_environment example_versioning forwarding_graph two_foo
       = (Some (ValueError (''duplicate pkg-config package '' @ quoted ''foo'')), [],
          map (fill_defaults two_foo) (pkg_config two_foo))"
    by (simp add: finalize_pkg_config_def duplicate_name_def fill_defaults_def str_opt_def
          Let_def)
  show ?thesis
    using d e duplicate_names_stop_the_pass[OF d, of example_environment example_versioning
        forwarding_graph]
    by blast
qed

theorem duplicate_error_has_no_count:
  "fst (finalize_pkg_config example_environment example_versioning forwarding_graph two_foo)
     = Some (ValueError (''duplicate pkg-config package '' @ quoted ''foo''))
   \<and> CHR ''2'' \<notin> set (''duplicate pkg-config package '' @ quoted ''foo'')"
  by (simp add: finalize_pkg_config_def duplicate_name_def fill_defaults_def str_opt_def
        quoted_def Let_def)

subsection \<open>Rendering a requirement\<close>

text \<open>
  Claim C10. \<open>_safe_str\<close> renders an unconstrained requirement as its bare name, a
  requirement with the operator \<open>==\<close> as name, \<open>=\<close> and version, and a requirement with
  any other operator as name, operator and version, separated by single spaces. The
  text that \<open>write\<close> produces holds, between the \<open>Version\<close> field and the \<open>Cflags\<close> field,
  the fields \<open>Requires\<close>, \<open>Requires.private\<close> and \<open>Conflicts\<close>, in this order, each one
  made of the entries of the resolved list rendered in this way and joined by a comma
  and a space, and each one left out when its list is empty.
\<close>

theorem requirement_fields_rendered:
  "safe_str \<lparr>sreq_name = n, sreq_version = None\<rparr> = shell_literal n
   \<and> safe_str \<lparr>sreq_name = n, sreq_version = Some (spec ''=='' v)\<rparr>
       = shell_literal (n @ '' = '' @ v)
   \<and> (op \<noteq> ''=='' \<longrightarrow>
        safe_str \<lparr>sreq_name = n, sreq_version = Some (spec op v)\<rparr>
          = shell_literal (n @ '' '' @ op @ '' '' @ v))
   \<and> safe_str r = shell_literal (render_requirement r)
   \<and> write_data env language data =
        concat (map (\<lambda>(n, v). write_variable env n v) (install_dirs env))
        @ [CHR 0x0A]
        @ write_field env ''Name'' (text_value (r_desc_name data)) variable '' ''
        @ write_field env ''Description'' (text_value (Some (r_desc data))) variable '' ''
        @ write_field env ''URL'' (text_value (r_url data)) variable '' ''
        @ write_field env ''Version'' (text_value (r_version data)) variable '' ''
        @ requirement_line env ''Requires'' (r_requires data)
        @ requirement_line env ''Requires.private'' (r_requires_private data)
        @ requirement_line env ''Conflicts'' (r_conflicts data)
        @ write_field env ''Cflags''
            (map Plain (cflags_of env language (r_includes data) (r_libs data) @ r_cflags data))
            shell '' ''
        @ write_field env ''Libs''
            (map Plain (ldflags_of env language (r_includes data) (r_libs data) @ r_ldflags data))
            shell '' ''
        @ write_field env ''Libs.private''
            (map Plain (ldflags_of env language [] (r_libs_private data)
                        @ r_ldflags_private data))
            shell '' ''
   \<and> (fst (process_inputs vs g d) = Inr data \<longrightarrow>
        fst (PkgConfigInfo_write env vs g d) = Inr (write_data env (lang d) data))"
proof -
  have w: "write_field env f (requirement_things reqs) shell '', '' = requirement_line env f reqs"
    for f reqs
    by (simp add: write_field_def requirement_line_def requirement_things_def
          write_each_requirements Writer_write_def)
  have p: "fst (process_inputs vs g d) = Inr data \<longrightarrow>
        fst (PkgConfigInfo_write env vs g d) = Inr (write_data env (lang d) data)"
    by (cases "process_inputs vs g d") (auto simp: PkgConfigInfo_write_def)
  show ?thesis
    using p by (simp add: safe_str_render render_requirement_def write_data_def w Let_def)
qed

theorem requirement_fields_rendered_example:
  "''>='' \<noteq> ''==''
   \<and> safe_str \<lparr>sreq_name = ''zlib'', sreq_version = Some (spec ''>='' ''1.2'')\<rparr>
       = shell_literal ''zlib >= 1.2''
   \<and> fst (PkgConfigInfo_write example_environment example_versioning deps_graph conflicts_info)
       = Inr (''prefix=/usr/local'' @ [CHR 0x0A]
              @ [CHR 0x0A]
              @ ''Name: foo'' @ [CHR 0x0A]
              @ ''Description: foo library'' @ [CHR 0x0A]
              @ ''Requires: abc < 2.0, zlib >= 1.2'' @ [CHR 0x0A]
              @ ''Requires.private: png'' @ [CHR 0x0A]
              @ ''Conflicts: bar = 1.0, baz'' @ [CHR 0x0A]
              @ ''Libs: -lL'' @ [CHR 0x0A])"
proof -
  have e: "fst (process_inputs example_versioning deps_graph conflicts_info) = Inr
      \<lparr>r_name = Some ''foo'', r_desc_name = Some ''foo'', r_url = None, r_version = None,
       r_desc = ''foo library'',
       r_requires = [\<lparr>sreq_name = ''abc'', sreq_version = Some (spec ''<'' ''2.0'')\<rparr>,
                     \<lparr>sreq_name = ''zlib'', sreq_version = Some (spec ''>='' ''1.2'')\<rparr>],
       r_requires_private = [\<lparr>sreq_name = ''png'', sreq_version = None\<rparr>],
       r_conflicts = [\<lparr>sreq_name = ''bar'', sreq_version = Some (spec ''=='' ''1.0'')\<rparr>,
                      \<lparr>sreq_name = ''baz'', sreq_version = None\<rparr>],
       r_includes = [], r_libs = [''L''], r_libs_private = [],
       r_extra_fields = [], r_cflags = [], r_ldflags = [], r_ldflags_private = []\<rparr>"
    by (simp add: process_inputs_eval_full less_eq_list_code less_list_code)
  show ?thesis
    using e
      requirement_fields_rendered[of "''zlib''" "''1.2''" "''>=''" _ example_environment "''c''" _
        example_versioning deps_graph conflicts_info]
    by (simp add: write_field_def write_variable_def Writer_write_def text_value_def
          requirement_line_def render_requirement_def)
qed

subsection \<open>Resolving and writing twice\<close>

text \<open>
  Claim C7. For every descriptor (its requirement sets being dictionaries keyed by the
  names of their requirements, as the setters store them) and every build graph, a
  second resolution, run on the descriptor as the first one left it, returns what the
  first returned (the same dictionary or the same error) and leaves the descriptor as
  it was; writing twice gives the same text, or the same error, both times. The first
  resolution changes the stored requirement sets, and doing so again changes nothing.
  In the instance \<open>resolving_twice_example\<close> the first descriptor resolves, and the
  second, which has a system package with an option, fails both times on the unbound
  \<open>isiterable\<close> with its include directories untouched.
\<close>

theorem resolving_twice:
  assumes "wf_reqs (declared_set (requires d))"
    and "wf_reqs (declared_set (requires_private d))"
  shows "process_inputs vs g (snd (process_inputs vs g d)) = process_inputs vs g d
         \<and> PkgConfigInfo_write env vs g (snd (PkgConfigInfo_write env vs g d))
             = PkgConfigInfo_write env vs g d"
proof -
  obtain x d1 where p: "process_inputs vs g d = (x, d1)" by force
  have r: "process_inputs vs g d1 = (x, d1)" and l: "lang d1 = lang d"
    using rerun[OF assms, of vs g] p by simp_all
  have "snd (PkgConfigInfo_write env vs g d) = d1"
    by (simp add: PkgConfigInfo_write_def p split: sum.splits)
  moreover have "PkgConfigInfo_write env vs g d1 = PkgConfigInfo_write env vs g d"
    by (cases x) (simp_all add: PkgConfigInfo_write_def p r l)
  ultimately show ?thesis using p r by simp
qed

theorem resolving_twice_example:
  "wf_reqs (declared_set (requires zlib_info))
   \<and> wf_reqs (declared_set (requires_private zlib_info))
   \<and> snd (process_inputs example_versioning deps_graph zlib_info)
       = zlib_info\<lparr>requires := Some ([(''zlib'', req ''zlib'' {spec ''>='' ''1.2''})], []),
                    requires_private := Some ([(''png'', req ''png'' {})], [])\<rparr>
   \<and> process_inputs example_versioning deps_graph
        (snd (process_inputs example_versioning deps_graph zlib_info))
       = process_inputs example_versioning deps_graph zlib_info
   \<and> PkgConfigInfo_write example_environment example_versioning deps_graph
        (snd (PkgConfigInfo_write example_environment example_versioning deps_graph zlib_info))
       = PkgConfigInfo_write example_environment example_versioning deps_graph zlib_info
   \<and> wf_reqs (declared_set (requires system_includes_info))
   \<and> wf_reqs (declared_set (requires_private system_includes_info))
   \<and> process_inputs example_versioning forwarding_graph system_includes_info
       = (Inl (NameError (''name '' @ quoted ''isiterable'' @ '' is not defined'')),
          system_includes_info)
   \<and> process_inputs example_versioning forwarding_graph
        (snd (process_inputs example_versioning forwarding_graph system_includes_info))
       = process_inputs example_versioning forwarding_graph system_includes_info"
proof -
  have 1: "wf_reqs (declared_set (requires zlib_info))"
    by (simp add: declared_set_def wf_reqs_def)
  have 2: "wf_reqs (declared_set (requires_private zlib_info))"
    by (simp add: declared_set_def wf_reqs_def)
  have 3: "snd (process_inputs example_versioning deps_graph zlib_info)
       = zlib_info\<lparr>requires := Some ([(''zlib'', req ''zlib'' {spec ''>='' ''1.2''})], []),
                    requires_private := Some ([(''png'', req ''png'' {})], [])\<rparr>"
    by (simp add: process_inputs_eval_full)
  have 4: "wf_reqs (declared_set (requires system_includes_info))"
    by (simp add: declared_set_def wf_reqs_def)
  have 5: "wf_reqs (declared_set (requires_private system_includes_info))"
    by (simp add: declared_set_def wf_reqs_def)
  have 6: "process_inputs example_versioning forwarding_graph system_includes_info
       = (Inl (NameError (''name '' @ quoted ''isiterable'' @ '' is not defined'')),
          system_includes_info)"
    by (simp add: process_inputs_eval_full)
  show ?thesis
    using 1 2 3 4 5 6
      resolving_twice[OF 1 2, of example_versioning deps_graph example_environment]
      resolving_twice[OF 4 5, of example_versioning forwarding_graph example_environment]
    by blast
qed

end
